theory Spec2Isabelle
  imports Complex_Main
begin

section \<open>JavaScript strings and numbers\<close>

text \<open>
  A JavaScript string is modelled as an Isabelle \<open>string\<close>: a list of bytes, the UTF-8
  encoding of the text. The source files are read as bytes too, so every string literal
  below is the byte sequence that stands in the source file.
\<close>

definition is_digit :: "char \<Rightarrow> bool" where
  "is_digit c = (c \<in> set ''0123456789'')"

definition digit_val :: "char \<Rightarrow> int" where
  "digit_val c = of_char c - 48"

definition digit_char :: "nat \<Rightarrow> char" where
  "digit_char n = ''0123456789'' ! n"

definition int_of_digits :: "string \<Rightarrow> int" where
  "int_of_digits ds = foldl (\<lambda>a c. 10 * a + digit_val c) 0 ds"

text \<open>Decimal digits of a natural number, most significant first (\<open>String(n)\<close>).\<close>

function show_nat :: "nat \<Rightarrow> string" where
  "show_nat n = (if n < 10 then [digit_char n] else show_nat (n div 10) @ [digit_char (n mod 10)])"
  by pat_completeness auto
termination
  by (relation "measure id") auto

declare show_nat.simps [simp del]

definition show_int :: "int \<Rightarrow> string" where
  "show_int i = (if i < 0 then CHR ''-'' # show_nat (nat (- i)) else show_nat (nat i))"

text \<open>
  \<open>String.prototype.toLowerCase\<close> and \<open>toUpperCase\<close> on a text of ASCII characters: the
  letters are mapped, every other character is left as it is. (On other texts the
  functions follow the Unicode tables of the runtime, see \<open>toLowerCase\<close> below.)
\<close>

definition lower_char :: "char \<Rightarrow> char" where
  "lower_char c =
     (case map_of (zip ''ABCDEFGHIJKLMNOPQRSTUVWXYZ'' ''abcdefghijklmnopqrstuvwxyz'') c of
        None \<Rightarrow> c
      | Some l \<Rightarrow> l)"

definition upper_char :: "char \<Rightarrow> char" where
  "upper_char c =
     (case map_of (zip ''abcdefghijklmnopqrstuvwxyz'' ''ABCDEFGHIJKLMNOPQRSTUVWXYZ'') c of
        None \<Rightarrow> c
      | Some u \<Rightarrow> u)"

definition is_ascii :: "string \<Rightarrow> bool" where
  "is_ascii s = list_all (\<lambda>c. (of_char c :: nat) < 128) s"

text \<open>
  The characters of a text: in UTF-8 every byte that is not a continuation byte
  (\<open>0x80\<close> to \<open>0xBF\<close>) begins a character. \<open>char_take n\<close> is the text of the first \<open>n\<close>
  characters, \<open>char_drop n\<close> the rest.
\<close>

definition is_continuation :: "char \<Rightarrow> bool" where
  "is_continuation c = (128 \<le> (of_char c :: nat) \<and> (of_char c :: nat) < 192)"

definition char_length :: "string \<Rightarrow> nat" where
  "char_length s = length (filter (\<lambda>c. \<not> is_continuation c) s)"

fun char_take :: "nat \<Rightarrow> string \<Rightarrow> string" where
  "char_take n [] = []"
| "char_take n (c # cs) =
     (if is_continuation c then c # char_take n cs
      else (case n of 0 \<Rightarrow> [] | Suc m \<Rightarrow> c # char_take m cs))"

definition char_drop :: "nat \<Rightarrow> string \<Rightarrow> string" where
  "char_drop n s = drop (length (char_take n s)) s"

text \<open>
  \<open>String.prototype.trim\<close> removes the white space and the line terminators of
  ECMAScript at both ends: tab, line feed, vertical tab, form feed, carriage return,
  space, and, outside ASCII, U+00A0, U+1680, U+2000 to U+200A, U+2028, U+2029, U+202F,
  U+205F, U+3000 and U+FEFF, here in their UTF-8 encoding.
\<close>

definition white_space :: "string list" where
  "white_space =
     [[CHR 0x09], [CHR 0x0A], [CHR 0x0B], [CHR 0x0C], [CHR 0x0D], [CHR 0x20],
      [CHR 0xC2, CHR 0xA0],
      [CHR 0xE1, CHR 0x9A, CHR 0x80],
      [CHR 0xE2, CHR 0x80, CHR 0x80], [CHR 0xE2, CHR 0x80, CHR 0x81], [CHR 0xE2, CHR 0x80, CHR 0x82],
      [CHR 0xE2, CHR 0x80, CHR 0x83], [CHR 0xE2, CHR 0x80, CHR 0x84], [CHR 0xE2, CHR 0x80, CHR 0x85],
      [CHR 0xE2, CHR 0x80, CHR 0x86], [CHR 0xE2, CHR 0x80, CHR 0x87], [CHR 0xE2, CHR 0x80, CHR 0x88],
      [CHR 0xE2, CHR 0x80, CHR 0x89], [CHR 0xE2, CHR 0x80, CHR 0x8A],
      [CHR 0xE2, CHR 0x80, CHR 0xA8], [CHR 0xE2, CHR 0x80, CHR 0xA9], [CHR 0xE2, CHR 0x80, CHR 0xAF],
      [CHR 0xE2, CHR 0x81, CHR 0x9F],
      [CHR 0xE3, CHR 0x80, CHR 0x80],
      [CHR 0xEF, CHR 0xBB, CHR 0xBF]]"

text \<open>\<open>strip_start ws s\<close> removes from the front of \<open>s\<close> every text of \<open>ws\<close>, as long as one is there.\<close>

function strip_start :: "string list \<Rightarrow> string \<Rightarrow> string" where
  "strip_start ws s =
     (case find (\<lambda>w. w \<noteq> [] \<and> take (length w) s = w) ws of
        None \<Rightarrow> s
      | Some w \<Rightarrow> strip_start ws (drop (length w) s))"
  by pat_completeness auto
termination
proof (relation "measure (\<lambda>(ws, s). length s)")
  show "wf (measure (\<lambda>(ws, s). length s))" by simp
next
  fix ws :: "string list" and s w :: string
  assume "find (\<lambda>w. w \<noteq> [] \<and> take (length w) s = w) ws = Some w"
  then have w: "w \<noteq> []" "take (length w) s = w"
    by (auto simp: find_Some_iff)
  from w(2) have "length (take (length w) s) = length w"
    by simp
  then have "length w \<le> length s"
    by simp
  with w(1) have "length s - length w < length s"
    by (cases w) simp_all
  then show "((ws, drop (length w) s), (ws, s)) \<in> measure (\<lambda>(ws, s). length s)"
    by simp
qed

declare strip_start.simps [simp del]

definition trim :: "string \<Rightarrow> string" where
  "trim s = rev (strip_start (map rev white_space) (rev (strip_start white_space s)))"

text \<open>
  \<open>s.split(sep)[1]\<close> for a one-character separator: the text between the first and the
  second separator, undefined (\<open>None\<close>) when \<open>s\<close> has no separator.
\<close>

definition split_second :: "char \<Rightarrow> string \<Rightarrow> string option" where
  "split_second sep s =
     (case dropWhile (\<lambda>c. c \<noteq> sep) s of
        [] \<Rightarrow> None
      | _ # r \<Rightarrow> Some (takeWhile (\<lambda>c. c \<noteq> sep) r))"

text \<open>\<open>Array.prototype.join\<close> on strings.\<close>

fun join :: "string \<Rightarrow> string list \<Rightarrow> string" where
  "join sep [] = []"
| "join sep [x] = x"
| "join sep (x # y # ys) = x @ sep @ join sep (y # ys)"

section \<open>JSON values\<close>

text \<open>
  The values \<open>JSON.parse\<close> produces. A number is kept as its exact decimal value
  \<open>m * 10 ^ e\<close> (\<open>JNum m e\<close>); rounding to an IEEE double is not modelled. An object is the
  list of its own properties in the order JavaScript enumerates them.
\<close>

datatype json =
    JNull
  | JBool bool
  | JNum int int
  | JStr string
  | JArr "json list"
  | JObj "(string \<times> json) list"

text \<open>JavaScript truthiness (\<open>ToBoolean\<close>) of a JSON value.\<close>

fun truthy :: "json \<Rightarrow> bool" where
  "truthy JNull = False"
| "truthy (JBool b) = b"
| "truthy (JNum m e) = (m \<noteq> 0)"
| "truthy (JStr s) = (s \<noteq> [])"
| "truthy (JArr vs) = True"
| "truthy (JObj ms) = True"

text \<open>
  \<open>v.name\<close> for a parsed value \<open>v\<close> other than null and a name that no built-in prototype
  defines (all the names the program reads are such): the own property of an object,
  undefined (\<open>None\<close>) on anything else.
\<close>

fun get_member :: "json \<Rightarrow> string \<Rightarrow> json option" where
  "get_member (JObj ms) k = map_of ms k"
| "get_member v k = None"

subsection \<open>Objects: property definition order\<close>

text \<open>
  An array index is a canonical numeric string below \<open>2^32 - 1\<close>. JavaScript enumerates
  the array-index keys of an object first, in ascending order, then the other keys in
  the order of their creation; defining a key again replaces its value in place.
\<close>

definition is_index_key :: "string \<Rightarrow> bool" where
  "is_index_key k =
     (k \<noteq> [] \<and> list_all is_digit k \<and> (length k = 1 \<or> hd k \<noteq> CHR ''0'')
      \<and> int_of_digits k < 4294967295)"

fun insert_index :: "string \<Rightarrow> json \<Rightarrow> (string \<times> json) list \<Rightarrow> (string \<times> json) list" where
  "insert_index k v [] = [(k, v)]"
| "insert_index k v ((k', v') # ms) =
     (if is_index_key k' \<and> int_of_digits k' < int_of_digits k
      then (k', v') # insert_index k v ms
      else (k, v) # (k', v') # ms)"

definition define_property :: "(string \<times> json) list \<Rightarrow> string \<times> json \<Rightarrow> (string \<times> json) list" where
  "define_property ms kv =
     (if fst kv \<in> set (map fst ms) then map (\<lambda>(k', v'). if k' = fst kv then (k', snd kv) else (k', v')) ms
      else if is_index_key (fst kv) then insert_index (fst kv) (snd kv) ms
      else ms @ [kv])"

definition build_object :: "(string \<times> json) list \<Rightarrow> (string \<times> json) list" where
  "build_object kvs = foldl define_property [] kvs"

subsection \<open>\<open>JSON.parse\<close>\<close>

definition is_ws :: "char \<Rightarrow> bool" where
  "is_ws c = (c \<in> set [CHR 0x20, CHR 0x09, CHR 0x0A, CHR 0x0D])"

definition skip_ws :: "string \<Rightarrow> string" where
  "skip_ws s = dropWhile is_ws s"

definition hex_val :: "char \<Rightarrow> nat option" where
  "hex_val c =
     (if is_digit c then Some (of_char c - 48)
      else if c \<in> set ''abcdef'' then Some (of_char c - 87)
      else if c \<in> set ''ABCDEF'' then Some (of_char c - 55)
      else None)"

definition hex4 :: "char \<Rightarrow> char \<Rightarrow> char \<Rightarrow> char \<Rightarrow> nat option" where
  "hex4 a b c d =
     (case (hex_val a, hex_val b, hex_val c, hex_val d) of
        (Some x, Some y, Some z, Some w) \<Rightarrow> Some (((x * 16 + y) * 16 + z) * 16 + w)
      | _ \<Rightarrow> None)"

text \<open>The UTF-8 bytes of one UTF-16 code unit, as a four-digit hexadecimal escape gives it.\<close>

definition utf8_of_unit :: "nat \<Rightarrow> string" where
  "utf8_of_unit n =
     (if n < 128 then [char_of n]
      else if n < 2048 then [char_of (192 + n div 64), char_of (128 + n mod 64)]
      else [char_of (224 + n div 4096), char_of (128 + (n div 64) mod 64), char_of (128 + n mod 64)])"

definition simple_escape :: "char \<Rightarrow> char option" where
  "simple_escape e =
     (if e = CHR 0x22 then Some (CHR 0x22)
      else if e = CHR 0x5C then Some (CHR 0x5C)
      else if e = CHR ''/'' then Some (CHR ''/'')
      else if e = CHR ''b'' then Some (CHR 0x08)
      else if e = CHR ''f'' then Some (CHR 0x0C)
      else if e = CHR ''n'' then Some (CHR 0x0A)
      else if e = CHR ''r'' then Some (CHR 0x0D)
      else if e = CHR ''t'' then Some (CHR 0x09)
      else None)"

definition cons_result :: "string \<Rightarrow> (string \<times> string) option \<Rightarrow> (string \<times> string) option" where
  "cons_result pre r = map_option (\<lambda>(s, rest). (pre @ s, rest)) r"

text \<open>
  The characters of a string literal after its opening quote, up to the closing quote:
  the decoded string and the rest of the input.
\<close>

fun parse_chars :: "string \<Rightarrow> (string \<times> string) option" where
  "parse_chars [] = None"
| "parse_chars (c # cs) =
     (if c = CHR 0x22 then Some ([], cs)
      else if c = CHR 0x5C then
        (case cs of
           [] \<Rightarrow> None
         | e # cs' \<Rightarrow>
             if e = CHR ''u'' then
               (case cs' of
                  h1 # h2 # h3 # h4 # rest \<Rightarrow>
                    (case hex4 h1 h2 h3 h4 of
                       None \<Rightarrow> None
                     | Some n \<Rightarrow> cons_result (utf8_of_unit n) (parse_chars rest))
                | _ \<Rightarrow> None)
             else
               (case simple_escape e of
                  None \<Rightarrow> None
                | Some ch \<Rightarrow> cons_result [ch] (parse_chars cs')))
      else if (of_char c :: nat) < 32 then None
      else cons_result [c] (parse_chars cs))"

text \<open>
  A number: \<open>-? (0 | [1-9][0-9]*) (. [0-9]+)? ([eE] [+-]? [0-9]+)?\<close>. The result is the
  mantissa and the decimal exponent.
\<close>

definition parse_exponent :: "string \<Rightarrow> (int \<times> string) option" where
  "parse_exponent s =
     (case s of
        [] \<Rightarrow> Some (0, s)
      | c # cs \<Rightarrow>
          if c = CHR ''e'' \<or> c = CHR ''E'' then
            (let (neg, ds) =
                   (case cs of
                      [] \<Rightarrow> (False, cs)
                    | d # cs' \<Rightarrow>
                        if d = CHR ''-'' then (True, cs')
                        else if d = CHR ''+'' then (False, cs')
                        else (False, cs))
             in if takeWhile is_digit ds = [] then None
                else Some ((if neg then - 1 else 1) * (int_of_digits (takeWhile is_digit ds)),
                           dropWhile is_digit ds))
          else Some (0, s))"

definition parse_fraction :: "string \<Rightarrow> (string \<times> string) option" where
  "parse_fraction s =
     (case s of
        [] \<Rightarrow> Some ([], s)
      | c # cs \<Rightarrow>
          if c = CHR ''.'' then
            (if takeWhile is_digit cs = [] then None
             else Some (takeWhile is_digit cs, dropWhile is_digit cs))
          else Some ([], s))"

definition parse_number :: "string \<Rightarrow> (json \<times> string) option" where
  "parse_number s =
     (let (neg, s1) = (case s of [] \<Rightarrow> (False, s) | c # cs \<Rightarrow> if c = CHR ''-'' then (True, cs) else (False, s));
          ds = takeWhile is_digit s1;
          s2 = dropWhile is_digit s1
      in if ds = [] \<or> (hd ds = CHR ''0'' \<and> length ds > 1) then None
         else
           (case parse_fraction s2 of
              None \<Rightarrow> None
            | Some (fs, s3) \<Rightarrow>
                (case parse_exponent s3 of
                   None \<Rightarrow> None
                 | Some (e, s4) \<Rightarrow>
                     Some (JNum ((if neg then - 1 else 1) * (int_of_digits (ds @ fs)))
                                (e - int (length fs)), s4))))"

definition parse_literal :: "string \<Rightarrow> (json \<times> string) option" where
  "parse_literal s =
     (if take 4 s = ''null'' then Some (JNull, drop 4 s)
      else if take 4 s = ''true'' then Some (JBool True, drop 4 s)
      else if take 5 s = ''false'' then Some (JBool False, drop 5 s)
      else parse_number s)"

lemma skip_ws_Cons_shorter: "skip_ws s = c # cs \<Longrightarrow> length cs < length s"
proof -
  assume a: "skip_ws s = c # cs"
  have "length (skip_ws s) \<le> length s"
    unfolding skip_ws_def by (rule length_dropWhile_le)
  with a show ?thesis by simp
qed

text \<open>
  The recursive descent over values, array elements and object members. Each function
  takes the input left and returns the value read and the rest. The tests
  \<open>length r < length s\<close> always hold (a value takes at least one character); they tie the
  recursion to the length of the input.
\<close>

function parse_value :: "string \<Rightarrow> (json \<times> string) option"
  and parse_elements :: "string \<Rightarrow> (json list \<times> string) option"
  and parse_members :: "string \<Rightarrow> ((string \<times> json) list \<times> string) option"
where
  "parse_value s =
     (case skip_ws s of
        [] \<Rightarrow> None
      | c # cs \<Rightarrow>
          if c = CHR ''['' then
            (case skip_ws cs of
               [] \<Rightarrow> None
             | d # ds \<Rightarrow>
                 if d = CHR '']'' then Some (JArr [], ds)
                 else map_option (\<lambda>(vs, r). (JArr vs, r)) (parse_elements cs))
          else if c = CHR ''{'' then
            (case skip_ws cs of
               [] \<Rightarrow> None
             | d # ds \<Rightarrow>
                 if d = CHR ''}'' then Some (JObj [], ds)
                 else map_option (\<lambda>(ms, r). (JObj (build_object ms), r)) (parse_members cs))
          else if c = CHR 0x22 then map_option (\<lambda>(str, r). (JStr str, r)) (parse_chars cs)
          else parse_literal (c # cs))"
| "parse_elements s =
     (case parse_value s of
        None \<Rightarrow> None
      | Some (v, r) \<Rightarrow>
          if length r < length s then
            (case skip_ws r of
               [] \<Rightarrow> None
             | c # cs \<Rightarrow>
                 if c = CHR '','' then map_option (\<lambda>(vs, r'). (v # vs, r')) (parse_elements cs)
                 else if c = CHR '']'' then Some ([v], cs)
                 else None)
          else None)"
| "parse_members s =
     (case skip_ws s of
        [] \<Rightarrow> None
      | q # s1 \<Rightarrow>
          if q = CHR 0x22 then
            (case parse_chars s1 of
               None \<Rightarrow> None
             | Some (k, s2) \<Rightarrow>
                 if length s2 < length s1 then
                   (case skip_ws s2 of
                      [] \<Rightarrow> None
                    | colon # s3 \<Rightarrow>
                        if colon = CHR '':'' then
                          (case parse_value s3 of
                             None \<Rightarrow> None
                           | Some (v, r) \<Rightarrow>
                               if length r < length s3 then
                                 (case skip_ws r of
                                    [] \<Rightarrow> None
                                  | c # cs \<Rightarrow>
                                      if c = CHR '','' then
                                        map_option (\<lambda>(ms, r'). ((k, v) # ms, r')) (parse_members cs)
                                      else if c = CHR ''}'' then Some ([(k, v)], cs)
                                      else None)
                               else None)
                        else None)
                 else None)
          else None)"
  by pat_completeness auto
termination
proof (relation "measure (\<lambda>x. case x of
          Inl s \<Rightarrow> 2 * length s
        | Inr (Inl s) \<Rightarrow> 2 * length s + 1
        | Inr (Inr s) \<Rightarrow> 2 * length s + 1)", goal_cases)
  case 1
  show ?case by simp
next
  case (2 s c cs d ds)
  then show ?case by (auto dest: skip_ws_Cons_shorter)
next
  case (3 s c cs d ds)
  then show ?case by (auto dest: skip_ws_Cons_shorter)
next
  case (4 s)
  show ?case by simp
next
  case (5 s x v r c cs)
  then show ?case by (auto dest: skip_ws_Cons_shorter)
next
  case (6 s q s1 x k s2 colon s3)
  then show ?case by (auto dest!: skip_ws_Cons_shorter)
next
  case (7 s q s1 x k s2 colon s3 y v r c cs)
  then show ?case by (auto dest!: skip_ws_Cons_shorter)
qed

declare parse_value.simps [simp del] parse_elements.simps [simp del] parse_members.simps [simp del]

text \<open>\<open>JSON.parse(text)\<close>: one value, white space around it, nothing else. \<open>None\<close> is the SyntaxError.\<close>

definition json_parse :: "string \<Rightarrow> json option" where
  "json_parse s =
     (case parse_value s of
        None \<Rightarrow> None
      | Some (v, r) \<Rightarrow> if skip_ws r = [] then Some v else None)"

subsection \<open>\<open>JSON.stringify\<close> and \<open>ToString\<close>\<close>

text \<open>
  A number is written as its mantissa, followed by \<open>e\<close> and the exponent when that is not
  zero: integers are written as JavaScript writes them; for the other numbers the text
  denotes the same number, but JavaScript would choose the shortest decimal form. A
  string is written between quotes with the escapes of \<open>JSON.stringify\<close>; the strings of the
  model are well-formed UTF-8, so the escape of a lone surrogate does not arise.
\<close>

definition number_to_string :: "int \<Rightarrow> int \<Rightarrow> string" where
  "number_to_string m e = (if e = 0 then show_int m else show_int m @ CHR ''e'' # show_int e)"

definition hex_digit :: "nat \<Rightarrow> char" where
  "hex_digit n = ''0123456789abcdef'' ! n"

definition escape_char :: "char \<Rightarrow> string" where
  "escape_char c =
     (if c = CHR 0x22 then [CHR 0x5C, CHR 0x22]
      else if c = CHR 0x5C then [CHR 0x5C, CHR 0x5C]
      else if c = CHR 0x08 then [CHR 0x5C, CHR ''b'']
      else if c = CHR 0x0C then [CHR 0x5C, CHR ''f'']
      else if c = CHR 0x0A then [CHR 0x5C, CHR ''n'']
      else if c = CHR 0x0D then [CHR 0x5C, CHR ''r'']
      else if c = CHR 0x09 then [CHR 0x5C, CHR ''t'']
      else if (of_char c :: nat) < 32 then
        [CHR 0x5C, CHR ''u'', CHR ''0'', CHR ''0'', hex_digit (of_char c div 16), hex_digit (of_char c mod 16)]
      else [c])"

definition quote :: "string \<Rightarrow> string" where
  "quote s = CHR 0x22 # concat (map escape_char s) @ [CHR 0x22]"

fun json_stringify :: "json \<Rightarrow> string" where
  "json_stringify JNull = ''null''"
| "json_stringify (JBool b) = (if b then ''true'' else ''false'')"
| "json_stringify (JNum m e) = number_to_string m e"
| "json_stringify (JStr s) = quote s"
| "json_stringify (JArr vs) = ''['' @ join '','' (map json_stringify vs) @ '']''"
| "json_stringify (JObj ms) =
     ''{'' @ join '','' (map (\<lambda>kv. quote (fst kv) @ '':'' @ json_stringify (snd kv)) ms) @ ''}''"

text \<open>
  \<open>ToString\<close> of a value, as a template literal applies it. On an object it calls the
  \<open>toString\<close> property: an object that was parsed with a key \<open>toString\<close> of its own has a
  value there that is not callable, \<open>valueOf\<close> gives back the object, and the conversion
  throws a TypeError (\<open>None\<close>); any other parsed object is written \<open>[object Object]\<close>. An
  array is written as its elements joined by commas, null as the empty string.
  \<open>Array.prototype.join\<close> writes null as the empty string as well. A number is written
  as \<open>JSON.stringify\<close> writes it above.
\<close>

fun js_toString :: "json \<Rightarrow> string option" where
  "js_toString JNull = Some ''null''"
| "js_toString (JBool b) = Some (if b then ''true'' else ''false'')"
| "js_toString (JNum m e) = Some (number_to_string m e)"
| "js_toString (JStr s) = Some s"
| "js_toString (JArr vs) =
     map_option (join '','') (those (map (\<lambda>v. if v = JNull then Some [] else js_toString v) vs))"
| "js_toString (JObj ms) = (if ''toString'' \<in> set (map fst ms) then None else Some ''[object Object]'')"

definition join_element :: "json \<Rightarrow> string option" where
  "join_element v = (if v = JNull then Some [] else js_toString v)"

section \<open>Errors\<close>

text \<open>
  Every \<open>throw\<close> and every rejected promise of the source is a value of this type. The
  constructors carry what the message interpolates. \<open>ValidationError\<close> is the rejection of
  an input by its zod schema, \<open>DriverError\<close> the rejection of an insert by the database
  or by its driver, \<open>JsonSyntaxError\<close> and \<open>TypeError\<close> the errors of the JavaScript
  runtime.
\<close>

datatype error =
    ValidationError
  | MeetingNotFound
  | TranslationNotFound
  | NoTextExtracted
  | DatabaseNotAvailable
  | ImageTooLarge rat
  | UnsupportedFormat string
  | RemoteError string
  | ImageProcessingError string
  | DriverError
  | JsonSyntaxError
  | TypeError

text \<open>
  \<open>x.toFixed(2)\<close> for a non-negative \<open>x\<close>: the nearest integer to \<open>100 * x\<close> (the larger one
  on a tie), written with two decimals.
\<close>

definition toFixed2 :: "rat \<Rightarrow> string" where
  "toFixed2 x =
     (let n = \<lfloor>x * 100 + 1 / 2\<rfloor>
      in show_int (n div 100) @ ''.'' @ show_int ((n mod 100) div 10) @ show_int (n mod 10))"

text \<open>
  The message of an error, where the program writes it; \<open>None\<close> where zod, the driver
  or the runtime does.
\<close>

fun message :: "error \<Rightarrow> string option" where
  "message ValidationError = None"
| "message MeetingNotFound = Some ''Meeting not found''"
| "message TranslationNotFound = Some ''Translation not found''"
| "message NoTextExtracted = Some ''No text could be extracted from the image''"
| "message DatabaseNotAvailable = Some ''Database not available''"
| "message (ImageTooLarge fileSize) =
     Some (''Image too large. Maximum size is 16MB, got '' @ toFixed2 (fileSize / 1024 / 1024) @ ''MB'')"
| "message (UnsupportedFormat mimeType) =
     Some (''Unsupported image format: '' @ mimeType @ ''. Supported formats: JPEG, PNG, WebP, GIF'')"
| "message (RemoteError msg) = Some msg"
| "message (ImageProcessingError msg) = Some (''Failed to process image: '' @ msg)"
| "message DriverError = None"
| "message JsonSyntaxError = None"
| "message TypeError = None"

section \<open>Data model (drizzle/schema.ts)\<close>

text \<open>
  The rows of the tables \<open>meetings\<close> and \<open>translations\<close>, with the types the schema
  gives their columns; a nullable column is an \<open>option\<close>. The field names of the two
  tables and of the records below are prefixed where two records have a field of the
  same name.
\<close>

record meeting =
  m_id :: int
  userId :: int
  title :: string
  originalContent :: string
  detectedLanguage :: "string option"
  imageUrl :: "string option"
  imageKey :: "string option"
  m_createdAt :: nat

record translation =
  t_id :: int
  meetingId :: int
  targetLanguage :: string
  translatedContent :: string
  t_summary :: "string option"
  t_actionItems :: "string option"
  t_createdAt :: nat

text \<open>
  The values handed to an insert. The program passes values that come out of
  \<open>JSON.parse\<close> unchecked, so \<open>originalContent\<close>, \<open>detectedLanguage\<close> and \<open>summary\<close> are
  JavaScript values here, not yet strings.
\<close>

record InsertMeeting =
  im_userId :: int
  im_title :: string
  im_originalContent :: json
  im_detectedLanguage :: "json option"
  im_imageUrl :: "string option"
  im_imageKey :: "string option"

record InsertTranslation =
  it_meetingId :: int
  it_targetLanguage :: string
  it_translatedContent :: string
  it_summary :: json
  it_actionItems :: string

text \<open>\<open>MeetingSummary\<close> (summarization.ts) and \<open>OCRResult\<close> (ocr.ts), as the code builds them.\<close>

record MeetingSummary =
  summary :: json
  actionItems :: "json list"
  keyPoints :: "json list"
  participants :: "json list option"
  decisions :: "json list option"

record OCRResult =
  extractedText :: json
  ocr_detectedLanguage :: "json option"

section \<open>The world outside the program\<close>

text \<open>
  The remote calls made so far, in order. A call is logged when it is made, whether it
  succeeds or not.
\<close>

datatype call =
    DetectLanguage string
  | Translate string string "string option"
  | Summarize string
  | ExtractText string
  | StoragePut string string string

text \<open>
  What the program does not decide: the answers of the language model
  (\<open>generateText\<close>) and of the blob store, each a function of the calls made so far and of
  the request (\<open>Inl\<close> is the message of the rejected promise); whether \<open>getDb\<close> has a
  handle; the timestamp of \<open>defaultNow\<close>; the token of \<open>nanoid\<close>; the text of
  \<open>new Date().toLocaleString()\<close>; how the database driver writes a JavaScript value
  that is not a string into a text column (\<open>None\<close>: the insert is rejected); whether the
  database server runs in a strict SQL mode; the collation of the column
  \<open>translations.targetLanguage\<close>, given by its weight function (two texts are equal in a
  comparison of the database when their weights are equal: a binary collation has the
  identity, a case-insensitive one maps the letters of both cases to the same weight, a
  collation that pads with spaces drops the spaces at the end); and the case mappings
  of the JavaScript runtime on texts that are not ASCII (the tables of the Unicode
  version the engine is built with).
\<close>

record env =
  db_available :: bool
  driver_text :: "json \<Rightarrow> string option"
  db_now :: "call list \<Rightarrow> nat"
  gen_detect :: "call list \<Rightarrow> string \<Rightarrow> string + string"
  gen_translate :: "call list \<Rightarrow> string \<Rightarrow> string \<Rightarrow> string option \<Rightarrow> string + string"
  gen_summarize :: "call list \<Rightarrow> string \<Rightarrow> string + string"
  gen_ocr :: "call list \<Rightarrow> string \<Rightarrow> string + string"
  blob_put :: "call list \<Rightarrow> string \<Rightarrow> string \<Rightarrow> string \<Rightarrow> string + string"
  nanoid :: "call list \<Rightarrow> string"
  date_string :: string
  sql_strict :: bool
  collation_weight :: "string \<Rightarrow> string"
  to_lower :: "string \<Rightarrow> string"
  to_upper :: "string \<Rightarrow> string"

text \<open>
  \<open>String.prototype.toLowerCase\<close> and \<open>toUpperCase\<close>: on an ASCII text the letters are
  mapped, on any other text the runtime applies its Unicode tables.
\<close>

definition toLowerCase :: "env \<Rightarrow> string \<Rightarrow> string" where
  "toLowerCase ev s = (if is_ascii s then map lower_char s else to_lower ev s)"

definition toUpperCase :: "env \<Rightarrow> string \<Rightarrow> string" where
  "toUpperCase ev s = (if is_ascii s then map upper_char s else to_upper ev s)"

text \<open>
  The state: the two tables in insertion order, the auto-increment counters and the
  log of remote calls. The columns \<open>title\<close>, \<open>detectedLanguage\<close> and \<open>targetLanguage\<close> are
  \<open>varchar\<close> columns, of 255, 10 and 10 characters (their character set is taken to be
  \<open>utf8mb4\<close>, so that a character is a code point); the bound of 65,535 bytes on a \<open>text\<close>
  column is not part of the model.
\<close>

text \<open>(\<open>translations\<close> is a keyword of Isabelle, hence the prefix of the two table fields.)\<close>

record world =
  tbl_meetings :: "meeting list"
  tbl_translations :: "translation list"
  next_meeting_id :: int
  next_translation_id :: int
  calls :: "call list"

definition init_world :: "world" where
  "init_world = \<lparr>tbl_meetings = [], tbl_translations = [], next_meeting_id = 1,
                  next_translation_id = 1, calls = []\<rparr>"

definition log_call :: "call \<Rightarrow> world \<Rightarrow> world" where
  "log_call c w = w\<lparr>calls := calls w @ [c]\<rparr>"

section \<open>Persistence layer (server/db.ts)\<close>

text \<open>
  \<open>getDb\<close> creates the handle on first use when \<open>DATABASE_URL\<close> is set; the model keeps
  only whether a handle is returned.
\<close>

definition getDb :: "env \<Rightarrow> bool" where
  "getDb ev = db_available ev"

definition column_text :: "env \<Rightarrow> json \<Rightarrow> string option" where
  "column_text ev v = (case v of JStr s \<Rightarrow> Some s | _ \<Rightarrow> driver_text ev v)"

text \<open>
  A write to a \<open>varchar(n)\<close> column, as MySQL does it. A text of at most \<open>n\<close> characters is
  stored as it is. A longer text is cut to its first \<open>n\<close> characters, with a warning,
  when the server is not in a strict SQL mode, and also in a strict mode when only
  spaces are cut off; in a strict mode any other longer text is rejected ("Data too long
  for column") and the insert fails (\<open>None\<close>).
\<close>

definition varchar :: "env \<Rightarrow> nat \<Rightarrow> string \<Rightarrow> string option" where
  "varchar ev n s =
     (if char_length s \<le> n then Some s
      else if sql_strict ev \<and> \<not> list_all (\<lambda>c. c = CHR 0x20) (char_drop n s) then None
      else Some (char_take n s))"

definition createMeeting :: "env \<Rightarrow> world \<Rightarrow> InsertMeeting \<Rightarrow> (error + int) \<times> world" where
  "createMeeting ev w ins =
     (if \<not> getDb ev then (Inl DatabaseNotAvailable, w)
      else
        (case varchar ev 255 (im_title ins) of
           None \<Rightarrow> (Inl DriverError, w)
         | Some ttl \<Rightarrow>
             (case column_text ev (im_originalContent ins) of
                None \<Rightarrow> (Inl DriverError, w)
              | Some content \<Rightarrow>
                  (case (case im_detectedLanguage ins of
                           None \<Rightarrow> Some None
                         | Some v \<Rightarrow>
                             (case column_text ev v of
                                None \<Rightarrow> None
                              | Some l \<Rightarrow> map_option Some (varchar ev 10 l))) of
                     None \<Rightarrow> (Inl DriverError, w)
                   | Some lang \<Rightarrow>
                       (Inr (next_meeting_id w),
                        w\<lparr>tbl_meetings := tbl_meetings w @
                             [\<lparr>m_id = next_meeting_id w, userId = im_userId ins, title = ttl,
                               originalContent = content, detectedLanguage = lang,
                               imageUrl = im_imageUrl ins, imageKey = im_imageKey ins,
                               m_createdAt = db_now ev (calls w)\<rparr>],
                           next_meeting_id := next_meeting_id w + 1\<rparr>)))))"

definition getMeetingById :: "env \<Rightarrow> world \<Rightarrow> int \<Rightarrow> meeting option" where
  "getMeetingById ev w i =
     (if \<not> getDb ev then None else find (\<lambda>m. m_id m = i) (tbl_meetings w))"

text \<open>
  \<open>deleteMeeting\<close> deletes the row of \<open>meetings\<close>; the foreign key of
  \<open>translations.meetingId\<close> is declared \<open>onDelete: cascade\<close>, so the database deletes the
  translations of the meeting with it.
\<close>

definition deleteMeeting :: "env \<Rightarrow> world \<Rightarrow> int \<Rightarrow> (error + unit) \<times> world" where
  "deleteMeeting ev w i =
     (if \<not> getDb ev then (Inl DatabaseNotAvailable, w)
      else (Inr (),
            w\<lparr>tbl_meetings := filter (\<lambda>m. m_id m \<noteq> i) (tbl_meetings w),
              tbl_translations := filter (\<lambda>t. meetingId t \<noteq> i) (tbl_translations w)\<rparr>))"

definition createTranslation :: "env \<Rightarrow> world \<Rightarrow> InsertTranslation \<Rightarrow> (error + int) \<times> world" where
  "createTranslation ev w ins =
     (if \<not> getDb ev then (Inl DatabaseNotAvailable, w)
      else
        (case varchar ev 10 (it_targetLanguage ins) of
           None \<Rightarrow> (Inl DriverError, w)
         | Some lang \<Rightarrow>
             (case column_text ev (it_summary ins) of
                None \<Rightarrow> (Inl DriverError, w)
              | Some s \<Rightarrow>
                  (Inr (next_translation_id w),
                   w\<lparr>tbl_translations := tbl_translations w @
                        [\<lparr>t_id = next_translation_id w, meetingId = it_meetingId ins,
                          targetLanguage = lang,
                          translatedContent = it_translatedContent ins,
                          t_summary = Some s, t_actionItems = Some (it_actionItems ins),
                          t_createdAt = db_now ev (calls w)\<rparr>],
                      next_translation_id := next_translation_id w + 1\<rparr>))))"

text \<open>
  The select compares the target language as the database does, under the collation of
  the column. It has \<open>limit(1)\<close> and no ordering: the model returns the oldest matching
  row.
\<close>

definition getTranslation :: "env \<Rightarrow> world \<Rightarrow> int \<Rightarrow> string \<Rightarrow> translation option" where
  "getTranslation ev w mid lang =
     (if \<not> getDb ev then None
      else find (\<lambda>t. meetingId t = mid \<and> collation_weight ev (targetLanguage t) = collation_weight ev lang)
             (tbl_translations w))"

section \<open>Translation adapter (server/translation.ts)\<close>

text \<open>
  \<open>getTranslationAdapter\<close> returns the Gemini adapter; \<open>detectLanguage\<close> returns the
  answer trimmed and in lower case, \<open>translate\<close> the answer as it is. Neither catches the
  rejection of \<open>generateText\<close>.
\<close>

definition detectMeetingLanguage :: "env \<Rightarrow> world \<Rightarrow> string \<Rightarrow> (error + string) \<times> world" where
  "detectMeetingLanguage ev w content =
     (case gen_detect ev (calls w) content of
        Inl msg \<Rightarrow> (Inl (RemoteError msg), log_call (DetectLanguage content) w)
      | Inr text \<Rightarrow> (Inr (toLowerCase ev (trim text)), log_call (DetectLanguage content) w))"

definition translateMeetingNotes ::
  "env \<Rightarrow> world \<Rightarrow> string \<Rightarrow> string \<Rightarrow> string option \<Rightarrow> (error + string) \<times> world" where
  "translateMeetingNotes ev w content tgt src =
     (case gen_translate ev (calls w) content tgt src of
        Inl msg \<Rightarrow> (Inl (RemoteError msg), log_call (Translate content tgt src) w)
      | Inr text \<Rightarrow> (Inr text, log_call (Translate content tgt src) w))"

section \<open>Summarization (server/summarization.ts)\<close>

text \<open>The value of \<open>x || d\<close> for a property \<open>x\<close> that may be undefined.\<close>

definition or_default :: "json option \<Rightarrow> json \<Rightarrow> json" where
  "or_default x d = (case x of None \<Rightarrow> d | Some v \<Rightarrow> if truthy v then v else d)"

text \<open>\<open>Array.isArray(x) ? x : []\<close> and \<open>Array.isArray(x) ? x : undefined\<close>.\<close>

definition array_or_empty :: "json option \<Rightarrow> json list" where
  "array_or_empty x = (case x of Some (JArr vs) \<Rightarrow> vs | _ \<Rightarrow> [])"

definition array_or_undefined :: "json option \<Rightarrow> json list option" where
  "array_or_undefined x = (case x of Some (JArr vs) \<Rightarrow> Some vs | _ \<Rightarrow> None)"

text \<open>
  The body of the \<open>try\<close> block and its \<open>catch\<close>. \<open>JSON.parse\<close> throws on a text that is not
  JSON, and reading \<open>parsed.summary\<close> throws when the text is the JSON \<open>null\<close>: both end in
  the fallback.
\<close>

definition summary_fallback :: "string \<Rightarrow> MeetingSummary" where
  "summary_fallback text =
     \<lparr>summary = JStr text, actionItems = [], keyPoints = [], participants = None, decisions = None\<rparr>"

definition summary_of_response :: "string \<Rightarrow> MeetingSummary" where
  "summary_of_response text =
     (case json_parse text of
        None \<Rightarrow> summary_fallback text
      | Some parsed \<Rightarrow>
          if parsed = JNull then summary_fallback text
          else
            \<lparr>summary = or_default (get_member parsed ''summary'') (JStr ''No summary available''),
             actionItems = array_or_empty (get_member parsed ''actionItems''),
             keyPoints = array_or_empty (get_member parsed ''keyPoints''),
             participants = array_or_undefined (get_member parsed ''participants''),
             decisions = array_or_undefined (get_member parsed ''decisions'')\<rparr>)"

definition summarizeMeetingNotes :: "env \<Rightarrow> world \<Rightarrow> string \<Rightarrow> (error + MeetingSummary) \<times> world" where
  "summarizeMeetingNotes ev w content =
     (case gen_summarize ev (calls w) content of
        Inl msg \<Rightarrow> (Inl (RemoteError msg), log_call (Summarize content) w)
      | Inr text \<Rightarrow> (Inr (summary_of_response text), log_call (Summarize content) w))"

text \<open>
  The object \<open>JSON.stringify(summary)\<close> serializes: a property whose value is undefined is
  left out.
\<close>

definition summary_object :: "MeetingSummary \<Rightarrow> json" where
  "summary_object sm =
     JObj ([(''summary'', summary sm), (''actionItems'', JArr (actionItems sm)),
            (''keyPoints'', JArr (keyPoints sm))]
           @ (case participants sm of None \<Rightarrow> [] | Some ps \<Rightarrow> [(''participants'', JArr ps)])
           @ (case decisions sm of None \<Rightarrow> [] | Some ds \<Rightarrow> [(''decisions'', JArr ds)]))"

text \<open>
  \<open>items.forEach((item, idx) => sections.push(`${idx + 1}. ${item}`))\<close> and
  \<open>items.forEach(p => sections.push(`- ${p}`))\<close>: one line for each item, \<open>None\<close> where the
  conversion of the item to a string throws.
\<close>

fun numbered :: "nat \<Rightarrow> json list \<Rightarrow> string option list" where
  "numbered idx [] = []"
| "numbered idx (item # items) =
     map_option (\<lambda>s. show_nat (idx + 1) @ ''. '' @ s) (js_toString item) # numbered (idx + 1) items"

definition bulleted :: "json list \<Rightarrow> string option list" where
  "bulleted items = map (\<lambda>p. map_option (\<lambda>s. ''- '' @ s) (js_toString p)) items"

text \<open>
  \<open>formatSummaryForExport\<close>, on a summary of the declared type. The date is the text of
  \<open>new Date().toLocaleString()\<close>. The arrow between the two languages is the byte
  sequence of the source file. The result is \<open>None\<close> when a conversion to a string throws:
  of an item, in its template literal, or of \<open>summary.summary\<close>, in the final \<open>join\<close>.
\<close>

definition formatSummaryForExport ::
  "env \<Rightarrow> string \<Rightarrow> string \<Rightarrow> MeetingSummary \<Rightarrow> string \<Rightarrow> string \<Rightarrow> string option" where
  "formatSummaryForExport ev original translated sm sourceLanguage tgt =
     map_option (join [CHR 0x0A])
       (those
         ([Some ''# Meeting Summary'',
           Some [],
           Some (''**Languages:** '' @ toUpperCase ev sourceLanguage
              @ [CHR 0x20, CHR 0xC3, CHR 0xA2, CHR 0xE2, CHR 0x80, CHR 0xA0, CHR 0xE2, CHR 0x80, CHR 0x99, CHR 0x20]
              @ toUpperCase ev tgt),
           Some (''**Generated:** '' @ date_string ev),
           Some [],
           Some ''## Overview'',
           join_element (summary sm),
           Some []]
          @ (case participants sm of
               None \<Rightarrow> []
             | Some ps \<Rightarrow>
                 if length ps > 0 then [Some ''## Participants''] @ bulleted ps @ [Some []] else [])
          @ (if length (actionItems sm) > 0
             then [Some ''## Action Items''] @ numbered 0 (actionItems sm) @ [Some []] else [])
          @ (if length (keyPoints sm) > 0
             then [Some ''## Key Points''] @ bulleted (keyPoints sm) @ [Some []] else [])
          @ (case decisions sm of
               None \<Rightarrow> []
             | Some ds \<Rightarrow>
                 if length ds > 0 then [Some ''## Decisions Made''] @ bulleted ds @ [Some []] else [])
          @ map Some
              [''---'',
               [],
               ''## Original Content'',
               ''```'',
               original,
               ''```'',
               [],
               ''## Translated Content'',
               ''```'',
               translated,
               ''```'']))"

section \<open>OCR (server/ocr.ts)\<close>

definition ocr_fallback :: "string \<Rightarrow> OCRResult" where
  "ocr_fallback text = \<lparr>extractedText = JStr (trim text), ocr_detectedLanguage = None\<rparr>"

definition ocr_of_response :: "string \<Rightarrow> OCRResult" where
  "ocr_of_response text =
     (case json_parse text of
        None \<Rightarrow> ocr_fallback text
      | Some parsed \<Rightarrow>
          if parsed = JNull then ocr_fallback text
          else
            \<lparr>extractedText = or_default (get_member parsed ''text'') (JStr []),
             ocr_detectedLanguage = Some (or_default (get_member parsed ''language'') (JStr ''unknown''))\<rparr>)"

text \<open>
  \<open>extractAndDetectLanguage\<close>: the outer \<open>catch\<close> wraps the rejection of \<open>generateText\<close>.
  The \<open>confidence\<close> field of the result is a floating-point constant no caller reads; it
  is left out.
\<close>

definition extractAndDetectLanguage :: "env \<Rightarrow> world \<Rightarrow> string \<Rightarrow> (error + OCRResult) \<times> world" where
  "extractAndDetectLanguage ev w url =
     (case gen_ocr ev (calls w) url of
        Inl msg \<Rightarrow> (Inl (ImageProcessingError msg), log_call (ExtractText url) w)
      | Inr text \<Rightarrow> (Inr (ocr_of_response text), log_call (ExtractText url) w))"

text \<open>
  \<open>validateImageForOCR\<close>: \<open>None\<close> is \<open>{valid: true}\<close>, \<open>Some e\<close> is \<open>{valid: false, error}\<close>. The
  declared size is a JavaScript number: any finite value, not only a whole number of
  bytes.
\<close>

definition maxSize :: rat where
  "maxSize = 16 * 1024 * 1024"

definition supportedFormats :: "string list" where
  "supportedFormats = [''image/jpeg'', ''image/jpg'', ''image/png'', ''image/webp'', ''image/gif'']"

definition validateImageForOCR :: "env \<Rightarrow> rat \<Rightarrow> string \<Rightarrow> error option" where
  "validateImageForOCR ev fileSize mimeType =
     (if fileSize > maxSize then Some (ImageTooLarge fileSize)
      else if toLowerCase ev mimeType \<notin> set supportedFormats then Some (UnsupportedFormat mimeType)
      else None)"

definition storagePut :: "env \<Rightarrow> world \<Rightarrow> string \<Rightarrow> string \<Rightarrow> string \<Rightarrow> (error + string) \<times> world" where
  "storagePut ev w key payload mimeType =
     (case blob_put ev (calls w) key payload mimeType of
        Inl msg \<Rightarrow> (Inl (RemoteError msg), log_call (StoragePut key payload mimeType) w)
      | Inr url \<Rightarrow> (Inr url, log_call (StoragePut key payload mimeType) w))"

section \<open>API surface (server/routers.ts)\<close>

text \<open>
  Each procedure of the \<open>meetings\<close> router takes the world and returns its result
  (\<open>Inl\<close> the error thrown) with the world it leaves. The procedures are protected:
  \<open>uid\<close> is \<open>ctx.user.id\<close>. The input schemas of zod are the first test of each
  procedure.
\<close>

record CreateOutput =
  c_id :: int
  c_detectedLanguage :: string

definition meetings_create :: "env \<Rightarrow> world \<Rightarrow> int \<Rightarrow> string \<Rightarrow> string \<Rightarrow> (error + CreateOutput) \<times> world" where
  "meetings_create ev w uid ttl content =
     (if length ttl < 1 \<or> length content < 1 then (Inl ValidationError, w)
      else
        (case detectMeetingLanguage ev w content of
           (Inl e, w1) \<Rightarrow> (Inl e, w1)
         | (Inr lang, w1) \<Rightarrow>
             (case createMeeting ev w1
                     \<lparr>im_userId = uid, im_title = ttl, im_originalContent = JStr content,
                      im_detectedLanguage = Some (JStr lang), im_imageUrl = None, im_imageKey = None\<rparr> of
                (Inl e, w2) \<Rightarrow> (Inl e, w2)
              | (Inr i, w2) \<Rightarrow> (Inr \<lparr>c_id = i, c_detectedLanguage = lang\<rparr>, w2))))"

record CreateFromImageOutput =
  ci_id :: int
  ci_detectedLanguage :: "json option"
  ci_extractedText :: json
  ci_imageUrl :: string

text \<open>
  \<open>x.split(sep)[1] || d\<close>. The upload is logged with the base64 text of the image;
  \<open>Buffer.from\<close> (the decoding) is not modelled.
\<close>

definition second_or :: "char \<Rightarrow> string \<Rightarrow> string \<Rightarrow> string" where
  "second_or sep x d = (case split_second sep x of None \<Rightarrow> d | Some p \<Rightarrow> if p = [] then d else p)"

definition meetings_createFromImage ::
  "env \<Rightarrow> world \<Rightarrow> int \<Rightarrow> string \<Rightarrow> string \<Rightarrow> string \<Rightarrow> rat \<Rightarrow> (error + CreateFromImageOutput) \<times> world" where
  "meetings_createFromImage ev w uid ttl imageData mimeType fileSize =
     (if length ttl < 1 then (Inl ValidationError, w)
      else
        (case validateImageForOCR ev fileSize mimeType of
           Some e \<Rightarrow> (Inl e, w)
         | None \<Rightarrow>
             (let base64Data = second_or (CHR '','') imageData imageData;
                  fileExtension = second_or (CHR ''/'') mimeType ''jpg'';
                  fileKey = ''meetings/'' @ show_int uid @ ''/'' @ nanoid ev (calls w) @ ''.'' @ fileExtension
              in case storagePut ev w fileKey base64Data mimeType of
                   (Inl e, w1) \<Rightarrow> (Inl e, w1)
                 | (Inr url, w1) \<Rightarrow>
                     (case extractAndDetectLanguage ev w1 url of
                        (Inl e, w2) \<Rightarrow> (Inl e, w2)
                      | (Inr ocrResult, w2) \<Rightarrow>
                          if \<not> truthy (extractedText ocrResult) then (Inl NoTextExtracted, w2)
                          else
                            (case createMeeting ev w2
                                    \<lparr>im_userId = uid, im_title = ttl,
                                     im_originalContent = extractedText ocrResult,
                                     im_detectedLanguage = ocr_detectedLanguage ocrResult,
                                     im_imageUrl = Some url, im_imageKey = Some fileKey\<rparr> of
                               (Inl e, w3) \<Rightarrow> (Inl e, w3)
                             | (Inr i, w3) \<Rightarrow>
                                 (Inr \<lparr>ci_id = i, ci_detectedLanguage = ocr_detectedLanguage ocrResult,
                                       ci_extractedText = extractedText ocrResult, ci_imageUrl = url\<rparr>,
                                  w3))))))"

text \<open>
  What \<open>translate\<close> returns: on a cache hit the row of the table (its nullable text
  columns as JavaScript values, null for NULL), on a miss the object the procedure
  builds, which has no \<open>createdAt\<close> and whose \<open>summary\<close> is the value the summarizer
  returned.
\<close>

record TranslationOutput =
  o_id :: int
  o_meetingId :: int
  o_targetLanguage :: string
  o_translatedContent :: string
  o_summary :: json
  o_actionItems :: "string option"
  o_createdAt :: "nat option"

definition row_output :: "translation \<Rightarrow> TranslationOutput" where
  "row_output t =
     \<lparr>o_id = t_id t, o_meetingId = meetingId t, o_targetLanguage = targetLanguage t,
      o_translatedContent = translatedContent t,
      o_summary = (case t_summary t of None \<Rightarrow> JNull | Some s \<Rightarrow> JStr s),
      o_actionItems = t_actionItems t, o_createdAt = Some (t_createdAt t)\<rparr>"

text \<open>\<open>meeting.detectedLanguage || undefined\<close>: null and the empty string give no hint.\<close>

definition source_hint :: "string option \<Rightarrow> string option" where
  "source_hint d = (case d of None \<Rightarrow> None | Some l \<Rightarrow> if l = [] then None else Some l)"

definition meetings_translate :: "env \<Rightarrow> world \<Rightarrow> int \<Rightarrow> string \<Rightarrow> (error + TranslationOutput) \<times> world" where
  "meetings_translate ev w mid tgt =
     (case getTranslation ev w mid tgt of
        Some existingTranslation \<Rightarrow> (Inr (row_output existingTranslation), w)
      | None \<Rightarrow>
          (case getMeetingById ev w mid of
             None \<Rightarrow> (Inl MeetingNotFound, w)
           | Some mt \<Rightarrow>
               (case translateMeetingNotes ev w (originalContent mt) tgt (source_hint (detectedLanguage mt)) of
                  (Inl e, w1) \<Rightarrow> (Inl e, w1)
                | (Inr content, w1) \<Rightarrow>
                    (case summarizeMeetingNotes ev w1 content of
                       (Inl e, w2) \<Rightarrow> (Inl e, w2)
                     | (Inr sm, w2) \<Rightarrow>
                         (case createTranslation ev w2
                                 \<lparr>it_meetingId = mid, it_targetLanguage = tgt,
                                  it_translatedContent = content, it_summary = summary sm,
                                  it_actionItems = json_stringify (summary_object sm)\<rparr> of
                            (Inl e, w3) \<Rightarrow> (Inl e, w3)
                          | (Inr i, w3) \<Rightarrow>
                              (Inr \<lparr>o_id = i, o_meetingId = mid, o_targetLanguage = tgt,
                                    o_translatedContent = content, o_summary = summary sm,
                                    o_actionItems = Some (json_stringify (summary_object sm)),
                                    o_createdAt = None\<rparr>,
                               w3))))))"

definition meetings_getTranslation :: "env \<Rightarrow> world \<Rightarrow> int \<Rightarrow> string \<Rightarrow> translation option" where
  "meetings_getTranslation ev w mid tgt = getTranslation ev w mid tgt"

definition meetings_get :: "env \<Rightarrow> world \<Rightarrow> int \<Rightarrow> meeting option" where
  "meetings_get ev w i = getMeetingById ev w i"

definition meetings_delete :: "env \<Rightarrow> world \<Rightarrow> int \<Rightarrow> (error + bool) \<times> world" where
  "meetings_delete ev w i =
     (case deleteMeeting ev w i of
        (Inl e, w1) \<Rightarrow> (Inl e, w1)
      | (Inr u, w1) \<Rightarrow> (Inr True, w1))"

text \<open>
  \<open>export\<close> hands the value of \<open>JSON.parse\<close> to \<open>formatSummaryForExport\<close> unchecked. The
  formatter is modelled on values of its declared parameter type: \<open>as_MeetingSummary\<close>
  reads a parsed value as a \<open>MeetingSummary\<close> when it has a \<open>summary\<close> and its list fields
  are arrays (the two optional ones may be absent). On any other value the formatter
  reads \<open>length\<close> of something that is not a list, in most cases a TypeError; the model
  answers \<open>TypeError\<close> for all of them.
\<close>

definition optional_array :: "json option \<Rightarrow> json list option option" where
  "optional_array x =
     (case x of None \<Rightarrow> Some None | Some (JArr vs) \<Rightarrow> Some (Some vs) | Some _ \<Rightarrow> None)"

definition as_MeetingSummary :: "json \<Rightarrow> MeetingSummary option" where
  "as_MeetingSummary v =
     (case (get_member v ''summary'', get_member v ''actionItems'', get_member v ''keyPoints'',
            optional_array (get_member v ''participants''), optional_array (get_member v ''decisions'')) of
        (Some s, Some (JArr ai), Some (JArr kp), Some ps, Some ds) \<Rightarrow>
          Some \<lparr>summary = s, actionItems = ai, keyPoints = kp, participants = ps, decisions = ds\<rparr>
      | _ \<Rightarrow> None)"

text \<open>\<open>x || d\<close> on a nullable text column.\<close>

definition text_or :: "string option \<Rightarrow> string \<Rightarrow> string" where
  "text_or x d = (case x of None \<Rightarrow> d | Some s \<Rightarrow> if s = [] then d else s)"

definition meetings_export :: "env \<Rightarrow> world \<Rightarrow> int \<Rightarrow> string \<Rightarrow> (error + string) \<times> world" where
  "meetings_export ev w mid tgt =
     (case getMeetingById ev w mid of
        None \<Rightarrow> (Inl MeetingNotFound, w)
      | Some mt \<Rightarrow>
          (case getTranslation ev w mid tgt of
             None \<Rightarrow> (Inl TranslationNotFound, w)
           | Some tr \<Rightarrow>
               (case json_parse (text_or (t_actionItems tr) ''{}'') of
                  None \<Rightarrow> (Inl JsonSyntaxError, w)
                | Some parsed \<Rightarrow>
                    (case as_MeetingSummary parsed of
                       None \<Rightarrow> (Inl TypeError, w)
                     | Some sm \<Rightarrow>
                         (case formatSummaryForExport ev (originalContent mt)
                                 (translatedContent tr) sm
                                 (text_or (detectedLanguage mt) ''unknown'') tgt of
                            None \<Rightarrow> (Inl TypeError, w)
                          | Some exportContent \<Rightarrow> (Inr exportContent, w))))))"

text \<open>A run of \<open>translate\<close> calls, one after the other; the results are dropped.\<close>

fun translate_all :: "env \<Rightarrow> world \<Rightarrow> (int \<times> string) list \<Rightarrow> world" where
  "translate_all ev w [] = w"
| "translate_all ev w ((mid, tgt) # rest) = translate_all ev (snd (meetings_translate ev w mid tgt)) rest"

text \<open>
  The states the program reaches from the empty database: any sequence of the four
  mutations, with any inputs, under one environment.
\<close>

inductive reachable :: "env \<Rightarrow> world \<Rightarrow> bool" for ev :: env where
  reach_init: "reachable ev init_world"
| reach_create: "reachable ev w \<Longrightarrow> reachable ev (snd (meetings_create ev w uid ttl content))"
| reach_createFromImage:
    "reachable ev w \<Longrightarrow> reachable ev (snd (meetings_createFromImage ev w uid ttl imageData mimeType fileSize))"
| reach_translate: "reachable ev w \<Longrightarrow> reachable ev (snd (meetings_translate ev w mid tgt))"
| reach_delete: "reachable ev w \<Longrightarrow> reachable ev (snd (meetings_delete ev w i))"

section \<open>A concrete environment and database\<close>

text \<open>
  The case mappings of the sample runtime on texts that are not ASCII. They cover Basic
  Latin and the Latin-1 Supplement: the letters U+00C0 to U+00DE (without the
  multiplication sign) and U+00E0 to U+00FE (without the division sign) are two bytes
  in UTF-8, \<open>0xC3\<close> and a second byte, and the two cases differ by \<open>0x20\<close> in the second
  byte; in upper case the sharp s is \<open>SS\<close>, y with diaeresis is U+0178 and the micro
  sign is U+039C. Other letters are left as they are; no example uses them.
\<close>

definition latin1_upper_bytes :: string where
  "latin1_upper_bytes =
     [
      CHR 0x80, CHR 0x81, CHR 0x82, CHR 0x83, CHR 0x84, CHR 0x85, CHR 0x86, CHR 0x87, CHR 0x88, CHR 0x89,
      CHR 0x8A, CHR 0x8B, CHR 0x8C, CHR 0x8D, CHR 0x8E, CHR 0x8F, CHR 0x90, CHR 0x91, CHR 0x92, CHR 0x93,
      CHR 0x94, CHR 0x95, CHR 0x96, CHR 0x98, CHR 0x99, CHR 0x9A, CHR 0x9B, CHR 0x9C, CHR 0x9D, CHR 0x9E]"

definition latin1_lower_bytes :: string where
  "latin1_lower_bytes =
     [
      CHR 0xA0, CHR 0xA1, CHR 0xA2, CHR 0xA3, CHR 0xA4, CHR 0xA5, CHR 0xA6, CHR 0xA7, CHR 0xA8, CHR 0xA9,
      CHR 0xAA, CHR 0xAB, CHR 0xAC, CHR 0xAD, CHR 0xAE, CHR 0xAF, CHR 0xB0, CHR 0xB1, CHR 0xB2, CHR 0xB3,
      CHR 0xB4, CHR 0xB5, CHR 0xB6, CHR 0xB8, CHR 0xB9, CHR 0xBA, CHR 0xBB, CHR 0xBC, CHR 0xBD, CHR 0xBE]"

fun latin_lower :: "string \<Rightarrow> string" where
  "latin_lower [] = []"
| "latin_lower [c] = [lower_char c]"
| "latin_lower (c # d # cs) =
     (if c = CHR 0xC3 then
        (case map_of (zip latin1_upper_bytes latin1_lower_bytes) d of
           Some l \<Rightarrow> c # l # latin_lower cs
         | None \<Rightarrow> c # d # latin_lower cs)
      else lower_char c # latin_lower (d # cs))"

fun latin_upper :: "string \<Rightarrow> string" where
  "latin_upper [] = []"
| "latin_upper [c] = [upper_char c]"
| "latin_upper (c # d # cs) =
     (if c = CHR 0xC3 then
        (if d = CHR 0x9F then ''SS'' @ latin_upper cs
         else if d = CHR 0xBF then CHR 0xC5 # CHR 0xB8 # latin_upper cs
         else
           (case map_of (zip latin1_lower_bytes latin1_upper_bytes) d of
              Some u \<Rightarrow> c # u # latin_upper cs
            | None \<Rightarrow> c # d # latin_upper cs))
      else if c = CHR 0xC2 \<and> d = CHR 0xB5 then CHR 0xCE # CHR 0x9C # latin_upper cs
      else upper_char c # latin_upper (d # cs))"

text \<open>
  One environment and one state of the database, on which the theorems below are
  evaluated: the model answers with fixed texts, the driver writes a value that is not a
  string as its JSON text, the database server is in a strict SQL mode and compares
  target languages under a binary collation that does not pad (a text is its own
  weight), the database holds two meetings and three translations.
\<close>

definition sample_summary_text :: string where
  "sample_summary_text =
     ''{\"summary\":\"Weekly sync\",\"actionItems\":[\"Ann to send notes\"],\"keyPoints\":[]}''"

definition sample_env :: env where
  "sample_env =
     \<lparr>db_available = True,
      driver_text = (\<lambda>v. Some (json_stringify v)),
      db_now = (\<lambda>cs. length cs),
      gen_detect = (\<lambda>cs content. Inr '' EN ''),
      gen_translate = (\<lambda>cs content tgt src. Inr (''in '' @ tgt @ '': '' @ content)),
      gen_summarize = (\<lambda>cs content. Inr sample_summary_text),
      gen_ocr = (\<lambda>cs url. Inr ''{\"text\": \"\", \"language\": \"unknown\"}''),
      blob_put = (\<lambda>cs key payload mimeType. Inr (''https://blobs.test/'' @ key)),
      nanoid = (\<lambda>cs. ''V1StGXR8'' @ show_nat (length cs)),
      date_string = ''1/5/2026, 9:00:00 AM'',
      sql_strict = True,
      collation_weight = (\<lambda>s. s),
      to_lower = latin_lower,
      to_upper = latin_upper\<rparr>"

definition sample_meeting_1 :: meeting where
  "sample_meeting_1 =
     \<lparr>m_id = 1, userId = 7, title = ''Standup'', originalContent = ''Hello team'',
      detectedLanguage = Some ''en'', imageUrl = None, imageKey = None, m_createdAt = 1\<rparr>"

definition sample_meeting_2 :: meeting where
  "sample_meeting_2 =
     \<lparr>m_id = 2, userId = 7, title = ''Retro'', originalContent = ''Bonjour'',
      detectedLanguage = Some ''fr'', imageUrl = None, imageKey = None, m_createdAt = 4\<rparr>"

definition sample_translation :: "int \<Rightarrow> int \<Rightarrow> string \<Rightarrow> translation" where
  "sample_translation i mid tgt =
     \<lparr>t_id = i, meetingId = mid, targetLanguage = tgt, translatedContent = ''in '' @ tgt,
      t_summary = Some ''Weekly sync'', t_actionItems = Some sample_summary_text, t_createdAt = 3\<rparr>"

definition sample_world :: world where
  "sample_world =
     \<lparr>tbl_meetings = [sample_meeting_1, sample_meeting_2],
      tbl_translations = [sample_translation 1 1 ''fr'', sample_translation 2 2 ''en'',
                          sample_translation 3 1 ''es''],
      next_meeting_id = 3, next_translation_id = 4, calls = []\<rparr>"

section \<open>What each step leaves unchanged\<close>

lemma log_call_simps:
  "tbl_meetings (log_call c w) = tbl_meetings w"
  "tbl_translations (log_call c w) = tbl_translations w"
  "next_meeting_id (log_call c w) = next_meeting_id w"
  "next_translation_id (log_call c w) = next_translation_id w"
  "calls (log_call c w) = calls w @ [c]"
  by (simp_all add: log_call_def)

lemma translateMeetingNotes_world:
  "snd (translateMeetingNotes ev w content tgt src) = log_call (Translate content tgt src) w"
  by (simp add: translateMeetingNotes_def split: sum.splits)

lemma summarizeMeetingNotes_world:
  "snd (summarizeMeetingNotes ev w content) = log_call (Summarize content) w"
  by (simp add: summarizeMeetingNotes_def split: sum.splits)

lemma createTranslation_meetings:
  "tbl_meetings (snd (createTranslation ev w ins)) = tbl_meetings w"
  by (simp add: createTranslation_def split: option.splits)

lemma translate_meetings:
  "tbl_meetings (snd (meetings_translate ev w mid tgt)) = tbl_meetings w"
proof (cases "getTranslation ev w mid tgt")
  case (Some t)
  then show ?thesis by (simp add: meetings_translate_def)
next
  case None
  note miss = this
  show ?thesis
  proof (cases "getMeetingById ev w mid")
    case None
    with miss show ?thesis by (simp add: meetings_translate_def)
  next
    case (Some mt)
    obtain r1 w1 where t: "translateMeetingNotes ev w (originalContent mt) tgt (source_hint (detectedLanguage mt)) = (r1, w1)"
      by (cases "translateMeetingNotes ev w (originalContent mt) tgt (source_hint (detectedLanguage mt))")
    have w1: "tbl_meetings w1 = tbl_meetings w"
      using translateMeetingNotes_world [of ev w "originalContent mt" tgt "source_hint (detectedLanguage mt)"] t
      by (simp add: log_call_simps)
    show ?thesis
    proof (cases r1)
      case (Inl e)
      with miss Some t w1 show ?thesis by (simp add: meetings_translate_def)
    next
      case (Inr content)
      obtain r2 w2 where s: "summarizeMeetingNotes ev w1 content = (r2, w2)"
        by (cases "summarizeMeetingNotes ev w1 content")
      have w2: "tbl_meetings w2 = tbl_meetings w"
        using summarizeMeetingNotes_world [of ev w1 content] s w1 by (simp add: log_call_simps)
      show ?thesis
      proof (cases r2)
        case (Inl e)
        with miss Some t Inr s w2 show ?thesis by (simp add: meetings_translate_def)
      next
        case (Inr sm)
        note sm = this
        let ?ins = "\<lparr>it_meetingId = mid, it_targetLanguage = tgt,
                                  it_translatedContent = content, it_summary = summary sm,
                                  it_actionItems = json_stringify (summary_object sm)\<rparr>"
        obtain r3 w3 where c: "createTranslation ev w2 ?ins = (r3, w3)"
          by (cases "createTranslation ev w2 ?ins")
        have w3: "tbl_meetings w3 = tbl_meetings w"
          using createTranslation_meetings [of ev w2 ?ins] c w2 by simp
        from miss Some t \<open>r1 = Inr content\<close> s sm c w3 show ?thesis
          by (cases r3) (simp_all add: meetings_translate_def)
      qed
    qed
  qed
qed

section \<open>Content immutability\<close>

text \<open>
  C3. After any sequence of translate calls (any meetings, any target languages, hits,
  misses and failures alike) the table of meetings is the one before the sequence: no
  field of any Meeting has changed, \<open>originalContent\<close> included.
\<close>

theorem translate_never_changes_meetings:
  "tbl_meetings (translate_all ev w reqs) = tbl_meetings w"
proof (induction reqs arbitrary: w)
  case Nil
  show ?case by simp
next
  case (Cons rq reqs)
  obtain mid tgt where rq: "rq = (mid, tgt)" by (cases rq)
  show ?case unfolding rq by (simp add: Cons.IH translate_meetings)
qed

section \<open>Cascade deletion\<close>

text \<open>
  C9. When the deletion of meeting \<open>i\<close> succeeds, the table of translations is the one
  before without the rows of meeting \<open>i\<close>: no translation of \<open>i\<close> is left, and
  \<open>getTranslation\<close> answers absent for \<open>i\<close> and every target language.
\<close>

theorem delete_cascades_translations:
  assumes "meetings_delete ev w i = (Inr ok, w')"
  shows "(\<forall>t \<in> set (tbl_translations w'). meetingId t \<noteq> i)
       \<and> tbl_translations w' = filter (\<lambda>t. meetingId t \<noteq> i) (tbl_translations w)
       \<and> (\<forall>tgt. meetings_getTranslation ev w' i tgt = None)"
proof -
  from assms have db: "getDb ev"
    by (auto simp: meetings_delete_def deleteMeeting_def split: if_splits)
  with assms have w': "w' = w\<lparr>tbl_meetings := filter (\<lambda>m. m_id m \<noteq> i) (tbl_meetings w),
              tbl_translations := filter (\<lambda>t. meetingId t \<noteq> i) (tbl_translations w)\<rparr>"
    by (simp add: meetings_delete_def deleteMeeting_def)
  have a: "\<forall>t \<in> set (tbl_translations w'). meetingId t \<noteq> i"
    by (simp add: w')
  have b: "\<forall>tgt. meetings_getTranslation ev w' i tgt = None"
    by (simp add: meetings_getTranslation_def getTranslation_def w' find_None_iff)
  from a b w' show ?thesis by simp
qed

theorem delete_cascades_translations_witness:
  "meetings_delete sample_env sample_world 1 =
     (Inr True, sample_world\<lparr>tbl_meetings := [sample_meeting_2],
                             tbl_translations := [sample_translation 2 2 ''en'']\<rparr>)
   \<and> meetings_getTranslation sample_env
        (sample_world\<lparr>tbl_meetings := [sample_meeting_2],
                       tbl_translations := [sample_translation 2 2 ''en'']\<rparr>) 1 ''fr'' = None
   \<and> meetings_getTranslation sample_env sample_world 1 ''fr'' = Some (sample_translation 1 1 ''fr'')"
proof -
  let ?w' = "sample_world\<lparr>tbl_meetings := [sample_meeting_2],
                           tbl_translations := [sample_translation 2 2 ''en'']\<rparr>"
  have h: "meetings_delete sample_env sample_world 1 = (Inr True, ?w')"
    by (simp add: meetings_delete_def deleteMeeting_def getDb_def sample_env_def sample_world_def
        sample_meeting_1_def sample_meeting_2_def sample_translation_def)
  from delete_cascades_translations [OF h]
  have "meetings_getTranslation sample_env ?w' 1 ''fr'' = None" by blast
  moreover have "meetings_getTranslation sample_env sample_world 1 ''fr'' = Some (sample_translation 1 1 ''fr'')"
    by (simp add: meetings_getTranslation_def getTranslation_def getDb_def sample_env_def sample_world_def
        sample_translation_def)
  ultimately show ?thesis using h by simp
qed

section \<open>Image validation\<close>

text \<open>
  C6. A declared size of exactly 16 MiB passes the size test: the validation then
  depends on the MIME type alone, and accepts the submission when the type is on the
  list. A size above 16 MiB, by one byte or by any amount, makes create-from-image fail
  with the size error and leave the world as it was: nothing is written and no call to
  the blob store or to the OCR is logged. A MIME type that is not on the list (compared
  in lower case; the list names JPEG under both \<open>image/jpeg\<close> and \<open>image/jpg\<close>, then PNG,
  WebP and GIF) is rejected in the same way. The title is not empty, as the input
  schema requires.
\<close>

theorem image_validation_boundary:
  assumes "ttl \<noteq> []"
  shows "validateImageForOCR ev (16 * 1024 * 1024) mimeType \<in> {None, Some (UnsupportedFormat mimeType)}
       \<and> (toLowerCase ev mimeType \<in> set supportedFormats \<longrightarrow>
            validateImageForOCR ev (16 * 1024 * 1024) mimeType = None)
       \<and> (fileSize > 16 * 1024 * 1024 \<longrightarrow>
            meetings_createFromImage ev w uid ttl imageData mimeType fileSize
              = (Inl (ImageTooLarge fileSize), w))
       \<and> (toLowerCase ev mimeType \<notin> set supportedFormats \<longrightarrow>
            (\<exists>e. meetings_createFromImage ev w uid ttl imageData mimeType fileSize = (Inl e, w)
                 \<and> e \<in> {ImageTooLarge fileSize, UnsupportedFormat mimeType}))"
proof -
  have a: "validateImageForOCR ev (16 * 1024 * 1024) mimeType \<in> {None, Some (UnsupportedFormat mimeType)}"
    by (simp add: validateImageForOCR_def maxSize_def)
  have b: "toLowerCase ev mimeType \<in> set supportedFormats \<Longrightarrow>
            validateImageForOCR ev (16 * 1024 * 1024) mimeType = None"
    by (simp add: validateImageForOCR_def maxSize_def)
  have c: "fileSize > 16 * 1024 * 1024 \<Longrightarrow>
            meetings_createFromImage ev w uid ttl imageData mimeType fileSize
              = (Inl (ImageTooLarge fileSize), w)"
    using assms by (simp add: meetings_createFromImage_def validateImageForOCR_def maxSize_def)
  have d: "toLowerCase ev mimeType \<notin> set supportedFormats \<Longrightarrow>
            (\<exists>e. meetings_createFromImage ev w uid ttl imageData mimeType fileSize = (Inl e, w)
                 \<and> e \<in> {ImageTooLarge fileSize, UnsupportedFormat mimeType})"
    using assms by (simp add: meetings_createFromImage_def validateImageForOCR_def)
  from a b c d show ?thesis by blast
qed

lemma toLowerCase_samples:
  "toLowerCase sample_env ''image/PNG'' = ''image/png''"
  "toLowerCase sample_env ''image/bmp'' = ''image/bmp''"
  by (simp_all add: toLowerCase_def is_ascii_def lower_char_def)

theorem image_validation_boundary_witness:
  "''Whiteboard'' \<noteq> []
   \<and> validateImageForOCR sample_env (16 * 1024 * 1024) ''image/PNG'' = None
   \<and> meetings_createFromImage sample_env sample_world 7 ''Whiteboard'' ''data:image/png;base64,iVBORw0KGgo=''
        ''image/PNG'' (16 * 1024 * 1024 + 1)
       = (Inl (ImageTooLarge (16 * 1024 * 1024 + 1)), sample_world)
   \<and> (\<exists>e. meetings_createFromImage sample_env sample_world 7 ''Whiteboard'' ''data:image/bmp;base64,Qk0=''
            ''image/bmp'' 2048 = (Inl e, sample_world)
          \<and> e \<in> {ImageTooLarge 2048, UnsupportedFormat ''image/bmp''})"
proof -
  have h: "''Whiteboard'' \<noteq> []" by simp
  have png: "toLowerCase sample_env ''image/PNG'' \<in> set supportedFormats"
    by (simp add: toLowerCase_samples supportedFormats_def)
  have bmp: "toLowerCase sample_env ''image/bmp'' \<notin> set supportedFormats"
    by (simp add: toLowerCase_samples supportedFormats_def)
  have big: "(16 * 1024 * 1024 + 1 :: rat) > 16 * 1024 * 1024" by simp
  from image_validation_boundary [OF h, where mimeType = "''image/PNG''" and fileSize = "16 * 1024 * 1024 + 1"
      and ev = sample_env and w = sample_world and uid = 7 and imageData = "''data:image/png;base64,iVBORw0KGgo=''"]
    png big
  have one: "validateImageForOCR sample_env (16 * 1024 * 1024) ''image/PNG'' = None
    \<and> meetings_createFromImage sample_env sample_world 7 ''Whiteboard'' ''data:image/png;base64,iVBORw0KGgo=''
        ''image/PNG'' (16 * 1024 * 1024 + 1)
       = (Inl (ImageTooLarge (16 * 1024 * 1024 + 1)), sample_world)"
    by blast
  from image_validation_boundary [OF h, where mimeType = "''image/bmp''" and fileSize = 2048
      and ev = sample_env and w = sample_world and uid = 7 and imageData = "''data:image/bmp;base64,Qk0=''"]
    bmp
  have two: "\<exists>e. meetings_createFromImage sample_env sample_world 7 ''Whiteboard'' ''data:image/bmp;base64,Qk0=''
            ''image/bmp'' 2048 = (Inl e, sample_world)
          \<and> e \<in> {ImageTooLarge 2048, UnsupportedFormat ''image/bmp''}"
    by blast
  from h one two show ?thesis by blast
qed

section \<open>Create from image: an image without text\<close>

text \<open>
  C7. The submission passes the validation, the upload gives a URL, and the OCR answers
  with a text whose extracted text is empty. Then create-from-image fails with the
  error whose message is "No text could be extracted from the image", and the tables
  are the ones before the call: no Meeting is persisted. (The upload and the OCR call
  have been made; they are in the log.)
\<close>

theorem empty_ocr_rejected:
  assumes "ttl \<noteq> []"
    and "validateImageForOCR ev fileSize mimeType = None"
    and "fileKey = ''meetings/'' @ show_int uid @ ''/'' @ nanoid ev (calls w) @ ''.''
                     @ second_or (CHR ''/'') mimeType ''jpg''"
    and "payload = second_or (CHR '','') imageData imageData"
    and "blob_put ev (calls w) fileKey payload mimeType = Inr url"
    and "gen_ocr ev (calls w @ [StoragePut fileKey payload mimeType]) url = Inr text"
    and "extractedText (ocr_of_response text) = JStr []"
  shows "\<exists>w'. meetings_createFromImage ev w uid ttl imageData mimeType fileSize = (Inl NoTextExtracted, w')
           \<and> tbl_meetings w' = tbl_meetings w
           \<and> tbl_translations w' = tbl_translations w
           \<and> calls w' = calls w @ [StoragePut fileKey payload mimeType, ExtractText url]
           \<and> message NoTextExtracted = Some ''No text could be extracted from the image''"
proof -
  have "meetings_createFromImage ev w uid ttl imageData mimeType fileSize
          = (Inl NoTextExtracted,
             log_call (ExtractText url) (log_call (StoragePut fileKey payload mimeType) w))"
    using assms
    by (simp add: meetings_createFromImage_def storagePut_def extractAndDetectLanguage_def
        log_call_simps Let_def)
  then show ?thesis by (simp add: log_call_simps)
qed

lemma sample_ocr_empty:
  "extractedText (ocr_of_response ''{\"text\": \"\", \"language\": \"unknown\"}'') = JStr []"
  by code_simp

lemma sample_upload_parts:
  "second_or (CHR '','') ''data:image/png;base64,iVBORw0KGgo='' ''data:image/png;base64,iVBORw0KGgo=''
     = ''iVBORw0KGgo=''"
  "second_or (CHR ''/'') ''image/png'' ''jpg'' = ''png''"
  "show_int 7 = ''7''"
  "show_nat 0 = ''0''"
  by (simp_all add: second_or_def split_second_def show_int_def show_nat.simps digit_char_def)

theorem empty_ocr_rejected_witness:
  "meetings_createFromImage sample_env sample_world 7 ''Whiteboard'' ''data:image/png;base64,iVBORw0KGgo=''
     ''image/png'' 2048
   = (Inl NoTextExtracted,
      sample_world\<lparr>calls := [StoragePut ''meetings/7/V1StGXR80.png'' ''iVBORw0KGgo='' ''image/png'',
                             ExtractText ''https://blobs.test/meetings/7/V1StGXR80.png'']\<rparr>)"
proof -
  have v: "validateImageForOCR sample_env 2048 ''image/png'' = None"
    by (simp add: validateImageForOCR_def maxSize_def supportedFormats_def toLowerCase_def is_ascii_def lower_char_def)
  have k: "''meetings/7/V1StGXR80.png'' = ''meetings/'' @ show_int 7 @ ''/'' @ nanoid sample_env (calls sample_world) @ ''.''
                     @ second_or (CHR ''/'') ''image/png'' ''jpg''"
    by (simp add: sample_upload_parts sample_env_def sample_world_def)
  have p: "''iVBORw0KGgo='' = second_or (CHR '','') ''data:image/png;base64,iVBORw0KGgo='' ''data:image/png;base64,iVBORw0KGgo=''"
    by (simp add: sample_upload_parts)
  have b: "blob_put sample_env (calls sample_world) ''meetings/7/V1StGXR80.png'' ''iVBORw0KGgo='' ''image/png''
             = Inr ''https://blobs.test/meetings/7/V1StGXR80.png''"
    by (simp add: sample_env_def)
  have g: "gen_ocr sample_env (calls sample_world @ [StoragePut ''meetings/7/V1StGXR80.png'' ''iVBORw0KGgo='' ''image/png''])
             ''https://blobs.test/meetings/7/V1StGXR80.png'' = Inr ''{\"text\": \"\", \"language\": \"unknown\"}''"
    by (simp add: sample_env_def)
  have t: "''Whiteboard'' \<noteq> []" by simp
  from empty_ocr_rejected [OF t v k p b g sample_ocr_empty]
  obtain w' where r: "meetings_createFromImage sample_env sample_world 7 ''Whiteboard''
        ''data:image/png;base64,iVBORw0KGgo='' ''image/png'' 2048 = (Inl NoTextExtracted, w')"
    by blast
  have "snd (meetings_createFromImage sample_env sample_world 7 ''Whiteboard''
        ''data:image/png;base64,iVBORw0KGgo='' ''image/png'' 2048)
      = sample_world\<lparr>calls := [StoragePut ''meetings/7/V1StGXR80.png'' ''iVBORw0KGgo='' ''image/png'',
                             ExtractText ''https://blobs.test/meetings/7/V1StGXR80.png'']\<rparr>"
    using v sample_ocr_empty
    by (simp add: meetings_createFromImage_def storagePut_def extractAndDetectLanguage_def log_call_def
        sample_upload_parts sample_env_def sample_world_def Let_def)
  with r show ?thesis by simp
qed

section \<open>Create from text\<close>


lemma varchar_fits: "char_length s \<le> n \<Longrightarrow> varchar ev n s = Some s"
  by (simp add: varchar_def)



text \<open>
  White space outside ASCII is trimmed and letters outside ASCII are mapped: the answer
  made of a no-break space (U+00A0), the letter U+00C9, \<open>N\<close> and a line feed is detected
  as the letter U+00E9 followed by \<open>n\<close>.
\<close>

lemma sample_detect_latin:
  "toLowerCase sample_env (trim [CHR 0xC2, CHR 0xA0, CHR 0xC3, CHR 0x89, CHR ''N'', CHR 0x0A])
     = [CHR 0xC3, CHR 0xA9, CHR ''n'']"
  by code_simp



section \<open>Translate: the cache-critical path\<close>

text \<open>The miss path of \<open>translate\<close>, with the calls of the helper functions unfolded.\<close>

lemma getMeetingById_Some_db: "getMeetingById ev w mid = Some mt \<Longrightarrow> getDb ev"
  by (simp add: getMeetingById_def split: if_splits)


lemma translate_hit:
  "getTranslation ev w mid tgt = Some t \<Longrightarrow> meetings_translate ev w mid tgt = (Inr (row_output t), w)"
  by (simp add: meetings_translate_def)

lemma translate_no_meeting:
  "getTranslation ev w mid tgt = None \<Longrightarrow> getMeetingById ev w mid = None
     \<Longrightarrow> meetings_translate ev w mid tgt = (Inl MeetingNotFound, w)"
  by (simp add: meetings_translate_def)

lemma translate_miss:
  assumes "getTranslation ev w mid tgt = None" and "getMeetingById ev w mid = Some mt"
  shows "meetings_translate ev w mid tgt =
     (let c1 = Translate (originalContent mt) tgt (source_hint (detectedLanguage mt)) in
      case gen_translate ev (calls w) (originalContent mt) tgt (source_hint (detectedLanguage mt)) of
        Inl msg \<Rightarrow> (Inl (RemoteError msg), log_call c1 w)
      | Inr content \<Rightarrow>
          (case gen_summarize ev (calls w @ [c1]) content of
             Inl msg \<Rightarrow> (Inl (RemoteError msg), log_call (Summarize content) (log_call c1 w))
           | Inr text \<Rightarrow>
               (case varchar ev 10 tgt of
                  None \<Rightarrow> (Inl DriverError, log_call (Summarize content) (log_call c1 w))
                | Some stored \<Rightarrow>
                    (case column_text ev (summary (summary_of_response text)) of
                       None \<Rightarrow> (Inl DriverError, log_call (Summarize content) (log_call c1 w))
                     | Some s \<Rightarrow>
                         (Inr \<lparr>o_id = next_translation_id w, o_meetingId = mid, o_targetLanguage = tgt,
                               o_translatedContent = content, o_summary = summary (summary_of_response text),
                               o_actionItems = Some (json_stringify (summary_object (summary_of_response text))),
                               o_createdAt = None\<rparr>,
                          (log_call (Summarize content) (log_call c1 w))
                            \<lparr>tbl_translations := tbl_translations w @
                               [\<lparr>t_id = next_translation_id w, meetingId = mid, targetLanguage = stored,
                                 translatedContent = content, t_summary = Some s,
                                 t_actionItems = Some (json_stringify (summary_object (summary_of_response text))),
                                 t_createdAt = db_now ev (calls w @ [c1, Summarize content])\<rparr>],
                             next_translation_id := next_translation_id w + 1\<rparr>)))))"
  using assms getMeetingById_Some_db [OF assms(2)]
  by (simp add: meetings_translate_def translateMeetingNotes_def summarizeMeetingNotes_def
      createTranslation_def log_call_simps Let_def split: sum.splits option.splits)

text \<open>The same for a target language that fits the column: the row has it as it was given.\<close>

lemma translate_miss_fits:
  assumes "getTranslation ev w mid tgt = None" and "getMeetingById ev w mid = Some mt"
    and "char_length tgt \<le> 10"
  shows "meetings_translate ev w mid tgt =
     (let c1 = Translate (originalContent mt) tgt (source_hint (detectedLanguage mt)) in
      case gen_translate ev (calls w) (originalContent mt) tgt (source_hint (detectedLanguage mt)) of
        Inl msg \<Rightarrow> (Inl (RemoteError msg), log_call c1 w)
      | Inr content \<Rightarrow>
          (case gen_summarize ev (calls w @ [c1]) content of
             Inl msg \<Rightarrow> (Inl (RemoteError msg), log_call (Summarize content) (log_call c1 w))
           | Inr text \<Rightarrow>
               (case column_text ev (summary (summary_of_response text)) of
                  None \<Rightarrow> (Inl DriverError, log_call (Summarize content) (log_call c1 w))
                | Some s \<Rightarrow>
                    (Inr \<lparr>o_id = next_translation_id w, o_meetingId = mid, o_targetLanguage = tgt,
                          o_translatedContent = content, o_summary = summary (summary_of_response text),
                          o_actionItems = Some (json_stringify (summary_object (summary_of_response text))),
                          o_createdAt = None\<rparr>,
                     (log_call (Summarize content) (log_call c1 w))
                       \<lparr>tbl_translations := tbl_translations w @
                          [\<lparr>t_id = next_translation_id w, meetingId = mid, targetLanguage = tgt,
                            translatedContent = content, t_summary = Some s,
                            t_actionItems = Some (json_stringify (summary_object (summary_of_response text))),
                            t_createdAt = db_now ev (calls w @ [c1, Summarize content])\<rparr>],
                        next_translation_id := next_translation_id w + 1\<rparr>))))"
  by (simp add: translate_miss [OF assms(1,2)] varchar_fits [OF assms(3)] Let_def
      del: json_stringify.simps split: sum.splits)

lemma short_codes: "char_length ''fr'' \<le> 10" "char_length ''de'' \<le> 10"
  by (simp_all add: char_length_def is_continuation_def)

section \<open>Summaries that are not JSON\<close>




section \<open>One translation per meeting and target language\<close>

text \<open>
  The pair of a stored translation, as the database compares it: the meeting id and the
  weight of the target language under the collation of the column. Rows with distinct
  pairs have distinct meeting ids or target languages that the database tells apart.
\<close>

definition translation_key :: "env \<Rightarrow> translation \<Rightarrow> int \<times> string" where
  "translation_key ev t = (meetingId t, collation_weight ev (targetLanguage t))"

definition translation_keys :: "env \<Rightarrow> world \<Rightarrow> (int \<times> string) list" where
  "translation_keys ev w = map (translation_key ev) (tbl_translations w)"

lemma getTranslation_None_no_key:
  "getDb ev \<Longrightarrow> getTranslation ev w mid tgt = None
     \<Longrightarrow> (mid, collation_weight ev tgt) \<notin> set (translation_keys ev w)"
  by (auto simp: getTranslation_def find_None_iff translation_keys_def translation_key_def)

lemma getTranslation_Some_row:
  "getTranslation ev w mid tgt = Some t
     \<Longrightarrow> t \<in> set (tbl_translations w) \<and> meetingId t = mid
         \<and> collation_weight ev (targetLanguage t) = collation_weight ev tgt"
  by (auto simp: getTranslation_def find_Some_iff split: if_splits)

text \<open>
  What one call of \<open>translate\<close> does to the table: it answers with the row that is stored
  for the pair and changes nothing; or it fails and the table is as before; or the pair
  had no row and exactly one row is appended, with the target language as the column
  stores it.
\<close>

lemma translate_step:
  assumes "meetings_translate ev w mid tgt = (r, w')"
  shows "(\<exists>t. getTranslation ev w mid tgt = Some t \<and> t \<in> set (tbl_translations w)
              \<and> translation_key ev t = (mid, collation_weight ev tgt)
              \<and> r = Inr \<lparr>o_id = t_id t, o_meetingId = meetingId t, o_targetLanguage = targetLanguage t,
                         o_translatedContent = translatedContent t,
                         o_summary = (case t_summary t of None \<Rightarrow> JNull | Some s \<Rightarrow> JStr s),
                         o_actionItems = t_actionItems t, o_createdAt = Some (t_createdAt t)\<rparr>
              \<and> w' = w)
       \<or> (\<exists>e. r = Inl e \<and> tbl_translations w' = tbl_translations w)
       \<or> ((mid, collation_weight ev tgt) \<notin> set (translation_keys ev w)
           \<and> (\<exists>stored content sm s created.
                 varchar ev 10 tgt = Some stored
                 \<and> column_text ev (summary sm) = Some s
                 \<and> r = Inr \<lparr>o_id = next_translation_id w, o_meetingId = mid, o_targetLanguage = tgt,
                            o_translatedContent = content, o_summary = summary sm,
                            o_actionItems = Some (json_stringify (summary_object sm)),
                            o_createdAt = None\<rparr>
                 \<and> tbl_translations w' = tbl_translations w @
                      [\<lparr>t_id = next_translation_id w, meetingId = mid, targetLanguage = stored,
                        translatedContent = content, t_summary = Some s,
                        t_actionItems = Some (json_stringify (summary_object sm)),
                        t_createdAt = created\<rparr>]))"
proof (cases "getTranslation ev w mid tgt")
  case (Some t)
  with assms getTranslation_Some_row [OF Some] show ?thesis
    by (auto simp: translate_hit translation_key_def row_output_def)
next
  case None
  note miss = this
  show ?thesis
  proof (cases "getMeetingById ev w mid")
    case None
    with assms miss show ?thesis by (auto simp: translate_no_meeting)
  next
    case (Some mt)
    note mt = this
    have db: "getDb ev" using Some by (rule getMeetingById_Some_db)
    have nokey: "(mid, collation_weight ev tgt) \<notin> set (translation_keys ev w)"
      using db miss by (rule getTranslation_None_no_key)
    let ?c1 = "Translate (originalContent mt) tgt (source_hint (detectedLanguage mt))"
    show ?thesis
    proof (cases "gen_translate ev (calls w) (originalContent mt) tgt (source_hint (detectedLanguage mt))")
      case (Inl msg)
      with assms show ?thesis
        by (auto simp: translate_miss [OF miss mt] Let_def log_call_simps)
    next
      case (Inr content)
      note tr = this
      show ?thesis
      proof (cases "gen_summarize ev (calls w @ [?c1]) content")
        case (Inl msg)
        with assms tr show ?thesis
          by (auto simp: translate_miss [OF miss mt] Let_def log_call_simps)
      next
        case (Inr answer)
        note sm = this
        show ?thesis
        proof (cases "varchar ev 10 tgt")
          case None
          with assms tr sm show ?thesis
            by (auto simp: translate_miss [OF miss mt] Let_def log_call_simps)
        next
          case (Some stored)
          note st = this
          show ?thesis
          proof (cases "column_text ev (summary (summary_of_response answer))")
            case None
            with assms tr sm st show ?thesis
              by (auto simp: translate_miss [OF miss mt] Let_def log_call_simps)
          next
            case (Some s)
            let ?payload = "json_stringify (summary_object (summary_of_response answer))"
            let ?row = "\<lparr>t_id = next_translation_id w, meetingId = mid, targetLanguage = stored,
                    translatedContent = content, t_summary = Some s,
                    t_actionItems = Some ?payload,
                    t_createdAt = db_now ev (calls w @ [?c1, Summarize content])\<rparr>"
            from assms tr sm st Some
            have r: "r = Inr \<lparr>o_id = next_translation_id w, o_meetingId = mid, o_targetLanguage = tgt,
                            o_translatedContent = content, o_summary = summary (summary_of_response answer),
                            o_actionItems = Some ?payload, o_createdAt = None\<rparr>"
              and w': "tbl_translations w' = tbl_translations w @ [?row]"
              by (auto simp: translate_miss [OF miss mt] Let_def log_call_simps
                  simp del: json_stringify.simps)
            have "\<exists>stored content sm s created.
                 varchar ev 10 tgt = Some stored
                 \<and> column_text ev (summary sm) = Some s
                 \<and> r = Inr \<lparr>o_id = next_translation_id w, o_meetingId = mid, o_targetLanguage = tgt,
                            o_translatedContent = content, o_summary = summary sm,
                            o_actionItems = Some (json_stringify (summary_object sm)),
                            o_createdAt = None\<rparr>
                 \<and> tbl_translations w' = tbl_translations w @
                      [\<lparr>t_id = next_translation_id w, meetingId = mid, targetLanguage = stored,
                        translatedContent = content, t_summary = Some s,
                        t_actionItems = Some (json_stringify (summary_object sm)),
                        t_createdAt = created\<rparr>]"
              using st Some r w' by blast
            with nokey show ?thesis by blast
          qed
        qed
      qed
    qed
  qed
qed

text \<open>
  A call whose target language fits the column keeps the pairs distinct: the row it
  appends has the pair that was looked up.
\<close>

lemma translate_keeps_distinct:
  assumes "distinct (translation_keys ev w)" and "char_length tgt \<le> 10"
  shows "distinct (translation_keys ev (snd (meetings_translate ev w mid tgt)))"
proof -
  obtain r w' where eq: "meetings_translate ev w mid tgt = (r, w')"
    by (cases "meetings_translate ev w mid tgt")
  from translate_step [OF eq] assms(1) varchar_fits [OF assms(2), of ev]
  have "distinct (translation_keys ev w')"
    by (auto simp: translation_keys_def translation_key_def)
  with eq show ?thesis by simp
qed

lemma create_translations:
  "tbl_translations (snd (meetings_create ev w uid ttl content)) = tbl_translations w"
  by (simp add: meetings_create_def detectMeetingLanguage_def createMeeting_def log_call_simps
      split: sum.splits option.splits)

lemma createMeeting_frame:
  "createMeeting ev w ins = (r, w') \<Longrightarrow> tbl_translations w' = tbl_translations w"
  by (auto simp: createMeeting_def split: option.splits if_splits)

lemma createFromImage_translations:
  "tbl_translations (snd (meetings_createFromImage ev w uid ttl imageData mimeType fileSize))
     = tbl_translations w"
  unfolding meetings_createFromImage_def Let_def
  by (auto simp: storagePut_def extractAndDetectLanguage_def log_call_simps
      split: sum.splits option.splits prod.splits dest: createMeeting_frame)

lemma delete_translations:
  "tbl_translations (snd (meetings_delete ev w i)) = tbl_translations w
   \<or> tbl_translations (snd (meetings_delete ev w i)) = filter (\<lambda>t. meetingId t \<noteq> i) (tbl_translations w)"
  by (simp add: meetings_delete_def deleteMeeting_def)

text \<open>
  The states the program reaches when every target language that is asked for fits the
  column of 10 characters. In these states no two stored translations have the same
  pair.
\<close>

inductive reachable_fitting :: "env \<Rightarrow> world \<Rightarrow> bool" for ev :: env where
  fit_init: "reachable_fitting ev init_world"
| fit_create: "reachable_fitting ev w \<Longrightarrow> reachable_fitting ev (snd (meetings_create ev w uid ttl content))"
| fit_createFromImage:
    "reachable_fitting ev w
       \<Longrightarrow> reachable_fitting ev (snd (meetings_createFromImage ev w uid ttl imageData mimeType fileSize))"
| fit_translate:
    "reachable_fitting ev w \<Longrightarrow> char_length tgt \<le> 10
       \<Longrightarrow> reachable_fitting ev (snd (meetings_translate ev w mid tgt))"
| fit_delete: "reachable_fitting ev w \<Longrightarrow> reachable_fitting ev (snd (meetings_delete ev w i))"

lemma reachable_fitting_reachable: "reachable_fitting ev w \<Longrightarrow> reachable ev w"
  by (induction rule: reachable_fitting.induct) (auto intro: reachable.intros)

lemma fitting_keys_distinct: "reachable_fitting ev w \<Longrightarrow> distinct (translation_keys ev w)"
proof (induction rule: reachable_fitting.induct)
  case fit_init
  show ?case by (simp add: translation_keys_def init_world_def)
next
  case (fit_create w uid ttl content)
  then show ?case by (simp add: translation_keys_def create_translations)
next
  case (fit_createFromImage w uid ttl imageData mimeType fileSize)
  then show ?case by (simp add: translation_keys_def createFromImage_translations)
next
  case (fit_translate w tgt mid)
  from fit_translate.IH fit_translate.hyps(2) show ?case by (rule translate_keeps_distinct)
next
  case (fit_delete w i)
  with delete_translations [of ev w i] show ?case
    by (auto simp: translation_keys_def distinct_map_filter)
qed

subsection \<open>A run: create a meeting, translate it\<close>

definition sample_meeting_created :: meeting where
  "sample_meeting_created =
     \<lparr>m_id = 1, userId = 7, title = ''Standup'', originalContent = ''Hello team'',
      detectedLanguage = Some ''en'', imageUrl = None, imageKey = None, m_createdAt = 1\<rparr>"

definition sample_world_created :: world where
  "sample_world_created =
     \<lparr>tbl_meetings = [sample_meeting_created], tbl_translations = [], next_meeting_id = 2,
      next_translation_id = 1, calls = [DetectLanguage ''Hello team'']\<rparr>"

definition sample_row :: translation where
  "sample_row =
     \<lparr>t_id = 1, meetingId = 1, targetLanguage = ''fr'', translatedContent = ''in fr: Hello team'',
      t_summary = Some ''Weekly sync'', t_actionItems = Some sample_summary_text, t_createdAt = 3\<rparr>"

definition sample_world_translated :: world where
  "sample_world_translated =
     \<lparr>tbl_meetings = [sample_meeting_created], tbl_translations = [sample_row], next_meeting_id = 2,
      next_translation_id = 2,
      calls = [DetectLanguage ''Hello team'', Translate ''Hello team'' ''fr'' (Some ''en''),
               Summarize ''in fr: Hello team'']\<rparr>"

lemma sample_summary_parsed:
  "summary_of_response sample_summary_text
     = \<lparr>summary = JStr ''Weekly sync'', actionItems = [JStr ''Ann to send notes''], keyPoints = [],
        participants = None, decisions = None\<rparr>"
  by code_simp

lemma sample_summary_stringified:
  "json_stringify (summary_object \<lparr>summary = JStr ''Weekly sync'', actionItems = [JStr ''Ann to send notes''],
      keyPoints = [], participants = None, decisions = None\<rparr>) = sample_summary_text"
  by code_simp

lemma sample_varchar:
  "varchar ev 255 ''Standup'' = Some ''Standup''" "varchar ev 10 ''en'' = Some ''en''"
  by (simp_all add: varchar_def char_length_def is_continuation_def)

text \<open>The first step of the run, in any environment that answers as the sample one does.\<close>

lemma create_standup:
  assumes "db_available ev" and "gen_detect ev [] ''Hello team'' = Inr '' EN ''"
    and "db_now ev [DetectLanguage ''Hello team''] = 1"
  shows "meetings_create ev init_world 7 ''Standup'' ''Hello team''
     = (Inr \<lparr>c_id = 1, c_detectedLanguage = ''en''\<rparr>, sample_world_created)"
proof -
  have l: "toLowerCase ev (trim '' EN '') = ''en''"
    by code_simp
  show ?thesis
    by (simp add: meetings_create_def detectMeetingLanguage_def createMeeting_def column_text_def getDb_def
        log_call_def init_world_def assms l sample_varchar sample_world_created_def
        sample_meeting_created_def)
qed

lemma sample_create:
  "meetings_create sample_env init_world 7 ''Standup'' ''Hello team''
     = (Inr \<lparr>c_id = 1, c_detectedLanguage = ''en''\<rparr>, sample_world_created)"
  by (rule create_standup) (simp_all add: sample_env_def)

lemma sample_translate:
  "meetings_translate sample_env sample_world_created 1 ''fr''
     = (Inr \<lparr>o_id = 1, o_meetingId = 1, o_targetLanguage = ''fr'',
             o_translatedContent = ''in fr: Hello team'', o_summary = JStr ''Weekly sync'',
             o_actionItems = Some sample_summary_text, o_createdAt = None\<rparr>,
        sample_world_translated)"
proof -
  have g: "getTranslation sample_env sample_world_created 1 ''fr'' = None"
    by (simp add: getTranslation_def sample_world_created_def)
  have m: "getMeetingById sample_env sample_world_created 1 = Some sample_meeting_created"
    by (simp add: getMeetingById_def getDb_def sample_env_def sample_world_created_def
        sample_meeting_created_def)
  have t: "gen_translate sample_env cs c tgt src = Inr (''in '' @ tgt @ '': '' @ c)" for cs c tgt src
    by (simp add: sample_env_def)
  have s: "gen_summarize sample_env cs c = Inr sample_summary_text" for cs c
    by (simp add: sample_env_def)
  have d: "db_now sample_env cs = length cs" for cs
    by (simp add: sample_env_def)
  show ?thesis
    by (subst translate_miss_fits [OF g m short_codes(1)])
       (simp add: t s d sample_summary_parsed sample_summary_stringified
        column_text_def Let_def log_call_def source_hint_def sample_meeting_created_def
        sample_world_created_def sample_world_translated_def sample_row_def)
qed

lemma sample_reachable: "reachable sample_env sample_world_translated"
proof -
  have "reachable sample_env (snd (meetings_create sample_env init_world 7 ''Standup'' ''Hello team''))"
    by (rule reach_create) (rule reach_init)
  then have "reachable sample_env sample_world_created" by (simp add: sample_create)
  then have "reachable sample_env (snd (meetings_translate sample_env sample_world_created 1 ''fr''))"
    by (rule reach_translate)
  then show ?thesis by (simp add: sample_translate)
qed

subsection \<open>A target language that does not fit the column\<close>

text \<open>
  The database of the sample environment, not in a strict SQL mode; the target language
  \<open>Portuguese (Brazil)\<close> has 19 characters. The states after the first and after the
  second call of \<open>translate\<close> for meeting 1 and that language.
\<close>

definition lenient_env :: env where
  "lenient_env = sample_env\<lparr>sql_strict := False\<rparr>"

definition cut_row :: "int \<Rightarrow> nat \<Rightarrow> translation" where
  "cut_row i created =
     \<lparr>t_id = i, meetingId = 1, targetLanguage = ''Portuguese'',
      translatedContent = ''in Portuguese (Brazil): Hello team'',
      t_summary = Some ''Weekly sync'', t_actionItems = Some sample_summary_text, t_createdAt = created\<rparr>"

definition cut_world_1 :: world where
  "cut_world_1 =
     \<lparr>tbl_meetings = [sample_meeting_created], tbl_translations = [cut_row 1 3], next_meeting_id = 2,
      next_translation_id = 2,
      calls = [DetectLanguage ''Hello team'',
               Translate ''Hello team'' ''Portuguese (Brazil)'' (Some ''en''),
               Summarize ''in Portuguese (Brazil): Hello team'']\<rparr>"

definition cut_world_2 :: world where
  "cut_world_2 =
     \<lparr>tbl_meetings = [sample_meeting_created], tbl_translations = [cut_row 1 3, cut_row 2 5],
      next_meeting_id = 2, next_translation_id = 3,
      calls = [DetectLanguage ''Hello team'',
               Translate ''Hello team'' ''Portuguese (Brazil)'' (Some ''en''),
               Summarize ''in Portuguese (Brazil): Hello team'',
               Translate ''Hello team'' ''Portuguese (Brazil)'' (Some ''en''),
               Summarize ''in Portuguese (Brazil): Hello team'']\<rparr>"

lemma lenient_cut: "varchar lenient_env 10 ''Portuguese (Brazil)'' = Some ''Portuguese''"
  by (simp add: varchar_def char_length_def is_continuation_def lenient_env_def sample_env_def)

lemma lenient_answers:
  "getDb lenient_env"
  "gen_translate lenient_env cs c tgt src = Inr (''in '' @ tgt @ '': '' @ c)"
  "gen_summarize lenient_env cs c = Inr sample_summary_text"
  "db_now lenient_env cs = length cs"
  "collation_weight lenient_env l = l"
  by (simp_all add: getDb_def lenient_env_def sample_env_def)

lemma lenient_create:
  "meetings_create lenient_env init_world 7 ''Standup'' ''Hello team''
     = (Inr \<lparr>c_id = 1, c_detectedLanguage = ''en''\<rparr>, sample_world_created)"
  by (rule create_standup) (simp_all add: lenient_env_def sample_env_def)

lemma lenient_first:
  "meetings_translate lenient_env sample_world_created 1 ''Portuguese (Brazil)''
     = (Inr \<lparr>o_id = 1, o_meetingId = 1, o_targetLanguage = ''Portuguese (Brazil)'',
             o_translatedContent = ''in Portuguese (Brazil): Hello team'', o_summary = JStr ''Weekly sync'',
             o_actionItems = Some sample_summary_text, o_createdAt = None\<rparr>,
        cut_world_1)"
proof -
  have g: "getTranslation lenient_env sample_world_created 1 ''Portuguese (Brazil)'' = None"
    by (simp add: getTranslation_def sample_world_created_def)
  have m: "getMeetingById lenient_env sample_world_created 1 = Some sample_meeting_created"
    by (simp add: getMeetingById_def lenient_answers sample_world_created_def sample_meeting_created_def)
  show ?thesis
    by (subst translate_miss [OF g m])
       (simp add: lenient_answers lenient_cut sample_summary_parsed sample_summary_stringified
        column_text_def Let_def log_call_def source_hint_def sample_meeting_created_def
        sample_world_created_def cut_world_1_def cut_row_def)
qed

lemma lenient_second:
  "meetings_translate lenient_env cut_world_1 1 ''Portuguese (Brazil)''
     = (Inr \<lparr>o_id = 2, o_meetingId = 1, o_targetLanguage = ''Portuguese (Brazil)'',
             o_translatedContent = ''in Portuguese (Brazil): Hello team'', o_summary = JStr ''Weekly sync'',
             o_actionItems = Some sample_summary_text, o_createdAt = None\<rparr>,
        cut_world_2)"
proof -
  have g: "getTranslation lenient_env cut_world_1 1 ''Portuguese (Brazil)'' = None"
    by (simp add: getTranslation_def lenient_answers cut_world_1_def cut_row_def)
  have m: "getMeetingById lenient_env cut_world_1 1 = Some sample_meeting_created"
    by (simp add: getMeetingById_def lenient_answers cut_world_1_def sample_meeting_created_def)
  show ?thesis
    by (subst translate_miss [OF g m])
       (simp add: lenient_answers lenient_cut sample_summary_parsed sample_summary_stringified
        column_text_def Let_def log_call_def source_hint_def sample_meeting_created_def
        cut_world_1_def cut_world_2_def cut_row_def)
qed

lemma cut_world_reachable: "reachable lenient_env cut_world_2"
proof -
  have "reachable lenient_env (snd (meetings_create lenient_env init_world 7 ''Standup'' ''Hello team''))"
    by (rule reach_create) (rule reach_init)
  then have "reachable lenient_env sample_world_created" by (simp add: lenient_create)
  then have "reachable lenient_env (snd (meetings_translate lenient_env sample_world_created 1 ''Portuguese (Brazil)''))"
    by (rule reach_translate)
  then have "reachable lenient_env cut_world_1" by (simp add: lenient_first)
  then have "reachable lenient_env (snd (meetings_translate lenient_env cut_world_1 1 ''Portuguese (Brazil)''))"
    by (rule reach_translate)
  then show ?thesis by (simp add: lenient_second)
qed

text \<open>
  C2, where the code departs from the claim. \<open>translate\<close> takes a target language of any
  length (\<open>z.string()\<close>) and hands it to a column that the schema declares \<open>varchar(10)\<close>.
  On a database that is not in a strict SQL mode the value is cut to \<open>Portuguese\<close> when
  the row is written; the lookup of the second call compares the stored \<open>Portuguese\<close> with
  \<open>Portuguese (Brazil)\<close>, finds no row, and the call translates, summarizes and inserts
  again. The state the program has reached holds two translations of meeting 1 with the
  same target language.
\<close>

theorem truncated_key_is_stored_twice:
  "meetings_translate lenient_env sample_world_created 1 ''Portuguese (Brazil)''
     = (Inr \<lparr>o_id = 1, o_meetingId = 1, o_targetLanguage = ''Portuguese (Brazil)'',
             o_translatedContent = ''in Portuguese (Brazil): Hello team'', o_summary = JStr ''Weekly sync'',
             o_actionItems = Some sample_summary_text, o_createdAt = None\<rparr>,
        cut_world_1)
   \<and> meetings_translate lenient_env cut_world_1 1 ''Portuguese (Brazil)''
     = (Inr \<lparr>o_id = 2, o_meetingId = 1, o_targetLanguage = ''Portuguese (Brazil)'',
             o_translatedContent = ''in Portuguese (Brazil): Hello team'', o_summary = JStr ''Weekly sync'',
             o_actionItems = Some sample_summary_text, o_createdAt = None\<rparr>,
        cut_world_2)
   \<and> reachable lenient_env cut_world_2
   \<and> map (\<lambda>t. (t_id t, meetingId t, targetLanguage t)) (tbl_translations cut_world_2)
       = [(1, 1, ''Portuguese''), (2, 1, ''Portuguese'')]
   \<and> \<not> distinct (map (\<lambda>t. (meetingId t, targetLanguage t)) (tbl_translations cut_world_2))
   \<and> \<not> distinct (translation_keys lenient_env cut_world_2)"
  by (simp add: lenient_first lenient_second cut_world_reachable)
     (simp add: cut_world_2_def cut_row_def translation_keys_def translation_key_def lenient_answers)

text \<open>
  The same happens in a strict SQL mode when only spaces do not fit: the spaces are cut
  off, the row is written, and under a collation that does not pad (the weights of the
  sample environment are the texts themselves) the second lookup finds no row.
\<close>

lemma strict_cut: "varchar sample_env 10 ''fr         '' = Some ''fr        ''"
  by (simp add: varchar_def char_length_def char_drop_def is_continuation_def sample_env_def)

lemma padded_key_is_stored_twice:
  "\<exists>out1 w1 out2 w2.
     meetings_translate sample_env sample_world_created 1 ''fr         '' = (Inr out1, w1)
     \<and> meetings_translate sample_env w1 1 ''fr         '' = (Inr out2, w2)
     \<and> map (\<lambda>t. (t_id t, meetingId t, targetLanguage t)) (tbl_translations w2)
         = [(1, 1, ''fr        ''), (2, 1, ''fr        '')]"
proof -
  have a: "getDb sample_env" "gen_translate sample_env cs c tgt src = Inr (''in '' @ tgt @ '': '' @ c)"
    "gen_summarize sample_env cs c = Inr sample_summary_text" "db_now sample_env cs = length cs"
    "collation_weight sample_env l = l" for cs c tgt src l
    by (simp_all add: getDb_def sample_env_def)
  let ?row1 = "\<lparr>t_id = 1, meetingId = 1, targetLanguage = ''fr        '',
      translatedContent = ''in fr         : Hello team'',
      t_summary = Some ''Weekly sync'', t_actionItems = Some sample_summary_text, t_createdAt = 3\<rparr>"
  let ?w1 = "\<lparr>tbl_meetings = [sample_meeting_created], tbl_translations = [?row1], next_meeting_id = 2,
      next_translation_id = 2,
      calls = [DetectLanguage ''Hello team'', Translate ''Hello team'' ''fr         '' (Some ''en''),
               Summarize ''in fr         : Hello team'']\<rparr>"
  have g1: "getTranslation sample_env sample_world_created 1 ''fr         '' = None"
    by (simp add: getTranslation_def sample_world_created_def)
  have m1: "getMeetingById sample_env sample_world_created 1 = Some sample_meeting_created"
    by (simp add: getMeetingById_def a sample_world_created_def sample_meeting_created_def)
  have first: "meetings_translate sample_env sample_world_created 1 ''fr         ''
      = (Inr \<lparr>o_id = 1, o_meetingId = 1, o_targetLanguage = ''fr         '',
             o_translatedContent = ''in fr         : Hello team'', o_summary = JStr ''Weekly sync'',
             o_actionItems = Some sample_summary_text, o_createdAt = None\<rparr>, ?w1)"
    by (subst translate_miss [OF g1 m1])
       (simp add: a strict_cut sample_summary_parsed sample_summary_stringified
        column_text_def Let_def log_call_def source_hint_def sample_meeting_created_def
        sample_world_created_def)
  have g2: "getTranslation sample_env ?w1 1 ''fr         '' = None"
    by (simp add: getTranslation_def a)
  have m2: "getMeetingById sample_env ?w1 1 = Some sample_meeting_created"
    by (simp add: getMeetingById_def a sample_meeting_created_def)
  have second: "tbl_translations (snd (meetings_translate sample_env ?w1 1 ''fr         ''))
      = [?row1, ?row1\<lparr>t_id := 2, t_createdAt := 5\<rparr>]
    \<and> (\<exists>out2. fst (meetings_translate sample_env ?w1 1 ''fr         '') = Inr out2)"
    by (subst translate_miss [OF g2 m2], subst translate_miss [OF g2 m2])
       (simp add: a strict_cut sample_summary_parsed sample_summary_stringified
        column_text_def Let_def log_call_def source_hint_def sample_meeting_created_def)
  obtain r2 w2 where e2: "meetings_translate sample_env ?w1 1 ''fr         '' = (r2, w2)"
    by (cases "meetings_translate sample_env ?w1 1 ''fr         ''")
  with second obtain out2 where "r2 = Inr out2" and "tbl_translations w2 = [?row1, ?row1\<lparr>t_id := 2, t_createdAt := 5\<rparr>]"
    by auto
  with first e2 show ?thesis by auto
qed

text \<open>
  What the two procedures do with that target language otherwise. In a strict SQL mode
  the insert is rejected: \<open>translate\<close> has made its two remote calls and fails, and no
  row is written. Where the value was cut, \<open>export\<close> for the language that was asked for
  finds no translation.
\<close>

lemma long_target_rejected:
  "meetings_translate sample_env sample_world_created 1 ''Portuguese (Brazil)''
     = (Inl DriverError,
        sample_world_created
          \<lparr>calls := [DetectLanguage ''Hello team'',
                     Translate ''Hello team'' ''Portuguese (Brazil)'' (Some ''en''),
                     Summarize ''in Portuguese (Brazil): Hello team'']\<rparr>)"
proof -
  have g: "getTranslation sample_env sample_world_created 1 ''Portuguese (Brazil)'' = None"
    by (simp add: getTranslation_def sample_world_created_def)
  have m: "getMeetingById sample_env sample_world_created 1 = Some sample_meeting_created"
    by (simp add: getMeetingById_def getDb_def sample_env_def sample_world_created_def
        sample_meeting_created_def)
  have a: "gen_translate sample_env cs c tgt src = Inr (''in '' @ tgt @ '': '' @ c)"
    "gen_summarize sample_env cs c = Inr sample_summary_text" for cs c tgt src
    by (simp_all add: sample_env_def)
  have v: "varchar sample_env 10 ''Portuguese (Brazil)'' = None"
    by (simp add: varchar_def char_length_def char_drop_def is_continuation_def sample_env_def)
  show ?thesis
    by (subst translate_miss [OF g m])
       (simp add: a v Let_def log_call_def source_hint_def sample_meeting_created_def
        sample_world_created_def)
qed

lemma export_misses_cut_translation:
  "meetings_export lenient_env cut_world_1 1 ''Portuguese (Brazil)''
     = (Inl TranslationNotFound, cut_world_1)"
  by (simp add: meetings_export_def getMeetingById_def getTranslation_def lenient_answers
      cut_world_1_def cut_row_def sample_meeting_created_def)

section \<open>Cache idempotence\<close>



lemma row_output_summary_text:
  "o_summary (row_output t) = JNull \<or> (\<exists>s. o_summary (row_output t) = JStr s)"
  by (cases "t_summary t") (simp_all add: row_output_def)

definition numeric_env :: env where
  "numeric_env = sample_env\<lparr>gen_summarize := (\<lambda>cs content. Inr ''{\"summary\": 42}'')\<rparr>"

definition numeric_payload :: string where
  "numeric_payload = ''{\"summary\":42,\"actionItems\":[],\"keyPoints\":[]}''"

lemma numeric_summary_parsed:
  "summary_of_response ''{\"summary\": 42}''
     = \<lparr>summary = JNum 42 0, actionItems = [], keyPoints = [], participants = None, decisions = None\<rparr>"
  by code_simp

lemma numeric_summary_stringified:
  "json_stringify (summary_object \<lparr>summary = JNum 42 0, actionItems = [], keyPoints = [],
      participants = None, decisions = None\<rparr>) = numeric_payload"
  by code_simp

lemma numeric_driver_text: "json_stringify (JNum 42 0) = ''42''"
  by code_simp

text \<open>
  C1, where the code departs from the claim. The summarization provider answers
  \<open>{"summary": 42}\<close>. \<open>summarizeMeetingNotes\<close> passes the number on as the summary, the first
  call of \<open>translate\<close> returns it as it is, and the second call returns the text column of
  the stored row (here the driver has written the number as the text \<open>42\<close>; whatever a
  driver writes, a text column is read back as a string or as null, never as a number):
  the two calls return the same id and different content.
\<close>

theorem translate_twice_numeric_summary:
  "fst (meetings_translate numeric_env sample_world_created 1 ''fr'')
     = Inr \<lparr>o_id = 1, o_meetingId = 1, o_targetLanguage = ''fr'',
            o_translatedContent = ''in fr: Hello team'', o_summary = JNum 42 0,
            o_actionItems = Some numeric_payload, o_createdAt = None\<rparr>
   \<and> fst (meetings_translate numeric_env
            (snd (meetings_translate numeric_env sample_world_created 1 ''fr'')) 1 ''fr'')
     = Inr \<lparr>o_id = 1, o_meetingId = 1, o_targetLanguage = ''fr'',
            o_translatedContent = ''in fr: Hello team'', o_summary = JStr ''42'',
            o_actionItems = Some numeric_payload, o_createdAt = Some 3\<rparr>"
proof -
  have g: "getTranslation numeric_env sample_world_created 1 ''fr'' = None"
    by (simp add: getTranslation_def sample_world_created_def)
  have m: "getMeetingById numeric_env sample_world_created 1 = Some sample_meeting_created"
    by (simp add: getMeetingById_def getDb_def numeric_env_def sample_env_def sample_world_created_def
        sample_meeting_created_def)
  have t: "gen_translate numeric_env cs c tgt src = Inr (''in '' @ tgt @ '': '' @ c)" for cs c tgt src
    by (simp add: numeric_env_def sample_env_def)
  have s: "gen_summarize numeric_env cs c = Inr ''{\"summary\": 42}''" for cs c
    by (simp add: numeric_env_def sample_env_def)
  have d: "db_now numeric_env cs = length cs" for cs
    by (simp add: numeric_env_def sample_env_def)
  have c: "column_text numeric_env (JNum 42 0) = Some ''42''"
    by (simp add: column_text_def numeric_env_def sample_env_def numeric_driver_text del: json_stringify.simps)
  have db: "getDb numeric_env"
    by (simp add: getDb_def numeric_env_def sample_env_def)
  let ?row = "\<lparr>t_id = 1, meetingId = 1, targetLanguage = ''fr'', translatedContent = ''in fr: Hello team'',
               t_summary = Some ''42'', t_actionItems = Some numeric_payload, t_createdAt = 3\<rparr>"
  have first: "meetings_translate numeric_env sample_world_created 1 ''fr''
     = (Inr \<lparr>o_id = 1, o_meetingId = 1, o_targetLanguage = ''fr'',
            o_translatedContent = ''in fr: Hello team'', o_summary = JNum 42 0,
            o_actionItems = Some numeric_payload, o_createdAt = None\<rparr>,
        sample_world_created\<lparr>tbl_translations := [?row], next_translation_id := 2,
           calls := [DetectLanguage ''Hello team'', Translate ''Hello team'' ''fr'' (Some ''en''),
               Summarize ''in fr: Hello team'']\<rparr>)"
    by (subst translate_miss_fits [OF g m short_codes(1)])
       (simp add: t s d c numeric_summary_parsed numeric_summary_stringified
        Let_def log_call_def source_hint_def sample_meeting_created_def sample_world_created_def
        del: json_stringify.simps)
  have second: "meetings_translate numeric_env
        (sample_world_created\<lparr>tbl_translations := [?row], next_translation_id := 2,
           calls := [DetectLanguage ''Hello team'', Translate ''Hello team'' ''fr'' (Some ''en''),
               Summarize ''in fr: Hello team'']\<rparr>) 1 ''fr''
     = (Inr (row_output ?row),
        sample_world_created\<lparr>tbl_translations := [?row], next_translation_id := 2,
           calls := [DetectLanguage ''Hello team'', Translate ''Hello team'' ''fr'' (Some ''en''),
               Summarize ''in fr: Hello team'']\<rparr>)"
    using db by (simp add: meetings_translate_def getTranslation_def numeric_env_def sample_env_def)
  show ?thesis
    by (simp add: first second row_output_def)
qed

section \<open>\<open>JSON.parse\<close> reads back what \<open>JSON.stringify\<close> writes\<close>

text \<open>
  The value read back is the value written, with its objects built as \<open>JSON.parse\<close>
  builds them. (An object that \<open>JSON.parse\<close> has built is left as it is.)
\<close>

fun canon :: "json \<Rightarrow> json" where
  "canon JNull = JNull"
| "canon (JBool b) = JBool b"
| "canon (JNum m e) = JNum m e"
| "canon (JStr s) = JStr s"
| "canon (JArr vs) = JArr (map canon vs)"
| "canon (JObj ms) = JObj (build_object (map (\<lambda>kv. (fst kv, canon (snd kv))) ms))"

text \<open>What may follow a value in the output of \<open>JSON.stringify\<close>.\<close>

definition follow_ok :: "string \<Rightarrow> bool" where
  "follow_ok rest = (rest = [] \<or> hd rest \<in> set '',]}'')"

subsection \<open>Digits\<close>

lemma digit_cases:
  "k < (10::nat) \<Longrightarrow> k = 0 \<or> k = 1 \<or> k = 2 \<or> k = 3 \<or> k = 4 \<or> k = 5 \<or> k = 6 \<or> k = 7 \<or> k = 8 \<or> k = 9"
  by arith

lemma digit_char_props:
  assumes "k < 10"
  shows "is_digit (digit_char k)" and "digit_val (digit_char k) = int k"
    and "(digit_char k = CHR ''0'') = (k = 0)"
  using digit_cases [OF assms]
  by (auto simp: digit_char_def is_digit_def digit_val_def)

lemma show_nat_unfold:
  "show_nat n = (if n < 10 then [digit_char n] else show_nat (n div 10) @ [digit_char (n mod 10)])"
  by (rule show_nat.simps)

lemma show_nat_digits: "list_all is_digit (show_nat n)"
proof (induction n rule: show_nat.induct)
  case (1 n)
  show ?case
  proof (cases "n < 10")
    case True
    then show ?thesis by (subst show_nat_unfold) (simp add: digit_char_props)
  next
    case False
    with 1 show ?thesis by (subst show_nat_unfold) (simp add: digit_char_props)
  qed
qed

lemma show_nat_not_empty: "show_nat n \<noteq> []"
  by (subst show_nat_unfold) simp

lemma int_of_digits_snoc: "int_of_digits (ds @ [c]) = 10 * int_of_digits ds + digit_val c"
  by (simp add: int_of_digits_def)

lemma int_of_show_nat: "int_of_digits (show_nat n) = int n"
proof (induction n rule: show_nat.induct)
  case (1 n)
  show ?case
  proof (cases "n < 10")
    case True
    then show ?thesis
      by (subst show_nat_unfold) (simp add: int_of_digits_def digit_char_props)
  next
    case False
    then have "int_of_digits (show_nat (n div 10)) = int (n div 10)" by (rule 1)
    with False show ?thesis
      by (subst show_nat_unfold) (simp add: int_of_digits_snoc digit_char_props zdiv_int zmod_int)
  qed
qed

lemma show_nat_hd: "hd (show_nat n) = CHR ''0'' \<Longrightarrow> n = 0"
proof (induction n rule: show_nat.induct)
  case (1 n)
  show ?case
  proof (cases "n < 10")
    case True
    with "1.prems" show ?thesis
      by (subst (asm) show_nat_unfold) (simp add: digit_char_props)
  next
    case False
    with "1.prems" have "hd (show_nat (n div 10)) = CHR ''0''"
      by (subst (asm) show_nat_unfold) (simp add: show_nat_not_empty)
    with False have "n div 10 = 0" by (rule 1)
    with False show ?thesis by simp
  qed
qed

lemma show_nat_zero: "show_nat 0 = ''0''"
  by (subst show_nat_unfold) (simp add: digit_char_def)

lemma show_nat_no_leading_zero:
  "\<not> (hd (show_nat n) = CHR ''0'' \<and> length (show_nat n) > 1)"
proof
  assume a: "hd (show_nat n) = CHR ''0'' \<and> length (show_nat n) > 1"
  then have "n = 0" by (simp add: show_nat_hd)
  with a show False by (simp add: show_nat_zero)
qed

definition not_digit_next :: "string \<Rightarrow> bool" where
  "not_digit_next rest = (rest = [] \<or> \<not> is_digit (hd rest))"

lemma takeWhile_digits:
  assumes "list_all is_digit ds" and "not_digit_next rest"
  shows "takeWhile is_digit (ds @ rest) = ds" and "dropWhile is_digit (ds @ rest) = rest"
proof -
  have all: "\<forall>x \<in> set ds. is_digit x" using assms(1) by (simp add: list_all_iff)
  show "takeWhile is_digit (ds @ rest) = ds"
    using all assms(2) by (cases rest) (simp_all add: not_digit_next_def takeWhile_append2)
  show "dropWhile is_digit (ds @ rest) = rest"
    using all assms(2) by (cases rest) (simp_all add: not_digit_next_def dropWhile_append2)
qed

lemma show_nat_hd_digit: "is_digit (hd (show_nat n))"
  using show_nat_digits [of n] show_nat_not_empty [of n]
  by (cases "show_nat n") simp_all
subsection \<open>Numbers\<close>

lemma follow_ok_cases: "follow_ok rest \<Longrightarrow> rest = [] \<or> (\<exists>c cs. rest = c # cs \<and> c \<in> set '',]}'')"
  by (cases rest) (simp_all add: follow_ok_def)

lemma follow_ok_not_digit: "follow_ok rest \<Longrightarrow> not_digit_next rest"
  by (auto simp: not_digit_next_def is_digit_def dest!: follow_ok_cases)

lemma show_nat_Cons: "\<exists>d ds. show_nat n = d # ds \<and> is_digit d"
  using show_nat_hd_digit [of n] show_nat_not_empty [of n]
  by (cases "show_nat n") simp_all

lemma is_digit_not_sign: "is_digit d \<Longrightarrow> d \<noteq> CHR ''-'' \<and> d \<noteq> CHR ''+'' \<and> d \<noteq> CHR ''n'' \<and> d \<noteq> CHR ''t'' \<and> d \<noteq> CHR ''f''"
  by (auto simp: is_digit_def)

lemma parse_exponent_absent: "follow_ok rest \<Longrightarrow> parse_exponent rest = Some (0, rest)"
  by (auto simp: parse_exponent_def dest!: follow_ok_cases)

lemma parse_exponent_show:
  assumes "e \<noteq> 0" and "follow_ok rest"
  shows "parse_exponent (CHR ''e'' # show_int e @ rest) = Some (e, rest)"
proof -
  have nd: "not_digit_next rest" using assms(2) by (rule follow_ok_not_digit)
  show ?thesis
  proof (cases "e < 0")
    case True
    have "parse_exponent (CHR ''e'' # CHR ''-'' # show_nat (nat (- e)) @ rest) = Some (e, rest)"
      using True
      by (simp add: parse_exponent_def takeWhile_digits [OF show_nat_digits nd] show_nat_not_empty
          int_of_show_nat)
    with True show ?thesis by (simp add: show_int_def)
  next
    case False
    obtain d ds where d: "show_nat (nat e) = d # ds" "is_digit d"
      using show_nat_Cons [of "nat e"] by blast
    have tw: "takeWhile is_digit (d # ds @ rest) = d # ds" "dropWhile is_digit (d # ds @ rest) = rest"
      using takeWhile_digits [OF show_nat_digits nd, of "nat e"] by (simp_all add: d(1))
    have "int_of_digits (d # ds) = e"
      using int_of_show_nat [of "nat e"] False by (simp add: d(1))
    then have "parse_exponent (CHR ''e'' # (d # ds) @ rest) = Some (e, rest)"
      using is_digit_not_sign [OF d(2)] tw
      by (simp add: parse_exponent_def)
    with False show ?thesis by (simp add: show_int_def d(1))
  qed
qed

lemma parse_fraction_absent: "s = [] \<or> hd s \<noteq> CHR ''.'' \<Longrightarrow> parse_fraction s = Some ([], s)"
  by (cases s) (auto simp: parse_fraction_def)

lemma parse_number_show:
  assumes "follow_ok rest"
  shows "parse_number (number_to_string m e @ rest) = Some (JNum m e, rest)"
proof -
  define tail where "tail = (if e = 0 then rest else CHR ''e'' # show_int e @ rest)"
  have s: "number_to_string m e @ rest = show_int m @ tail"
    by (simp add: number_to_string_def tail_def)
  have nd: "not_digit_next tail"
    using follow_ok_not_digit [OF assms] by (simp add: tail_def not_digit_next_def is_digit_def)
  have fr: "parse_fraction tail = Some ([], tail)"
    using follow_ok_cases [OF assms] by (intro parse_fraction_absent) (auto simp: tail_def)
  have ex: "parse_exponent tail = Some (e, rest)"
    using assms by (simp add: tail_def parse_exponent_absent parse_exponent_show)
  have digits: "parse_number (show_nat n @ tail) = Some (JNum (int n) e, rest)" for n
  proof -
    obtain d ds where d: "show_nat n = d # ds" "is_digit d"
      using show_nat_Cons [of n] by blast
    have tw: "takeWhile is_digit (d # ds @ tail) = d # ds" "dropWhile is_digit (d # ds @ tail) = tail"
      using takeWhile_digits [OF show_nat_digits nd, of n] by (simp_all add: d(1))
    have lz: "\<not> (d = CHR ''0'' \<and> ds \<noteq> [])"
      using show_nat_no_leading_zero [of n] by (simp add: d(1))
    have v: "int_of_digits (d # ds) = int n"
      using int_of_show_nat [of n] by (simp add: d(1))
    have "parse_number ((d # ds) @ tail) = Some (JNum (int n) e, rest)"
      using is_digit_not_sign [OF d(2)] tw lz v fr ex
      by (auto simp: parse_number_def Let_def)
    then show ?thesis by (simp add: d(1))
  qed
  have negative: "parse_number (CHR ''-'' # show_nat n @ tail) = Some (JNum (- int n) e, rest)" for n
  proof -
    obtain d ds where d: "show_nat n = d # ds" "is_digit d"
      using show_nat_Cons [of n] by blast
    have tw: "takeWhile is_digit (d # ds @ tail) = d # ds" "dropWhile is_digit (d # ds @ tail) = tail"
      using takeWhile_digits [OF show_nat_digits nd, of n] by (simp_all add: d(1))
    have lz: "\<not> (d = CHR ''0'' \<and> ds \<noteq> [])"
      using show_nat_no_leading_zero [of n] by (simp add: d(1))
    have v: "int_of_digits (d # ds) = int n"
      using int_of_show_nat [of n] by (simp add: d(1))
    have "parse_number (CHR ''-'' # (d # ds) @ tail) = Some (JNum (- int n) e, rest)"
      using tw lz v fr ex
      by (auto simp: parse_number_def Let_def)
    then show ?thesis by (simp add: d(1))
  qed
  show ?thesis
  proof (cases "m < 0")
    case True
    with negative [of "nat (- m)"] show ?thesis by (simp add: s show_int_def)
  next
    case False
    with digits [of "nat m"] show ?thesis by (simp add: s show_int_def)
  qed
qed

lemma number_to_string_head:
  "\<exists>c cs. number_to_string m e = c # cs \<and> (is_digit c \<or> c = CHR ''-'')"
proof -
  obtain d ds where "show_nat (nat \<bar>m\<bar>) = d # ds" "is_digit d"
    using show_nat_Cons [of "nat \<bar>m\<bar>"] by blast
  then show ?thesis
    by (cases "m < 0") (auto simp: number_to_string_def show_int_def abs_if)
qed

lemma parse_literal_number:
  assumes "follow_ok rest"
  shows "parse_literal (number_to_string m e @ rest) = Some (JNum m e, rest)"
proof -
  obtain c cs where h: "number_to_string m e = c # cs" "is_digit c \<or> c = CHR ''-''"
    using number_to_string_head [of m e] by blast
  have "c \<noteq> CHR ''n'' \<and> c \<noteq> CHR ''t'' \<and> c \<noteq> CHR ''f''"
    using h(2) by (auto simp: is_digit_def)
  then have "parse_literal ((c # cs) @ rest) = parse_number ((c # cs) @ rest)"
    by (simp add: parse_literal_def)
  then show ?thesis using parse_number_show [OF assms, of m e] by (simp add: h(1))
qed

subsection \<open>Strings\<close>

lemma hex_digit_val: "k < 16 \<Longrightarrow> hex_val (hex_digit k) = Some k"
proof -
  assume "k < 16"
  then have "k = 0 \<or> k = 1 \<or> k = 2 \<or> k = 3 \<or> k = 4 \<or> k = 5 \<or> k = 6 \<or> k = 7 \<or> k = 8 \<or> k = 9
      \<or> k = 10 \<or> k = 11 \<or> k = 12 \<or> k = 13 \<or> k = 14 \<or> k = 15"
    by arith
  then show ?thesis
    by (auto simp: hex_val_def hex_digit_def is_digit_def)
qed

lemma parse_chars_escape_u:
  assumes "(of_char c :: nat) < 32"
  shows "parse_chars (CHR 0x5C # CHR ''u'' # CHR ''0'' # CHR ''0'' # hex_digit (of_char c div 16)
           # hex_digit (of_char c mod 16) # t) = cons_result [c] (parse_chars t)"
proof -
  have d: "(of_char c :: nat) div 16 < 16" using assms by simp
  have z: "hex_val (CHR ''0'') = Some 0" by (simp add: hex_val_def is_digit_def)
  have "hex4 (CHR ''0'') (CHR ''0'') (hex_digit (of_char c div 16)) (hex_digit (of_char c mod 16))
          = Some (of_char c)"
    by (simp add: hex4_def z hex_digit_val [OF d] hex_digit_val)
  moreover have "utf8_of_unit (of_char c) = [c]"
    using assms by (simp add: utf8_of_unit_def)
  ultimately show ?thesis by simp
qed

lemma parse_chars_escape: "parse_chars (escape_char c @ t) = cons_result [c] (parse_chars t)"
proof (cases "(of_char c :: nat) < 32")
  case True
  show ?thesis
    using parse_chars_escape_u [OF True, of t] True
    by (auto simp: escape_char_def simple_escape_def)
next
  case False
  then show ?thesis
    by (auto simp: escape_char_def simple_escape_def)
qed

lemma parse_chars_quoted:
  "parse_chars (concat (map escape_char s) @ CHR 0x22 # rest) = Some (s, rest)"
proof (induction s)
  case Nil
  show ?case by simp
next
  case (Cons c s)
  have "parse_chars (escape_char c @ (concat (map escape_char s) @ CHR 0x22 # rest))
          = cons_result [c] (parse_chars (concat (map escape_char s) @ CHR 0x22 # rest))"
    by (rule parse_chars_escape)
  with Cons.IH show ?case by (simp add: cons_result_def)
qed
subsection \<open>Values\<close>

lemma skip_ws_Cons: "\<not> is_ws c \<Longrightarrow> skip_ws (c # cs) = c # cs"
  by (simp add: skip_ws_def)

lemma follow_ok_simps:
  "follow_ok []" "follow_ok (CHR '','' # s)" "follow_ok (CHR '']'' # s)" "follow_ok (CHR ''}'' # s)"
  by (simp_all add: follow_ok_def)

lemma join_Cons_more: "xs \<noteq> [] \<Longrightarrow> join sep (x # xs) = x @ sep @ join sep xs"
  by (cases xs) simp_all

lemma stringify_head:
  "\<exists>c cs. json_stringify v = c # cs \<and> \<not> is_ws c \<and> c \<noteq> CHR '']'' \<and> c \<noteq> CHR ''}''"
proof (cases v)
  case (JNum m e)
  obtain c cs where "number_to_string m e = c # cs" "is_digit c \<or> c = CHR ''-''"
    using number_to_string_head [of m e] by blast
  with JNum show ?thesis by (auto simp: is_ws_def is_digit_def)
qed (simp_all add: is_ws_def quote_def)

lemma stringify_not_empty [simp]: "json_stringify v \<noteq> []"
  using stringify_head [of v] by auto

lemma parse_value_null: "parse_value (''null'' @ rest) = Some (JNull, rest)"
  by (subst parse_value.simps) (simp add: skip_ws_def is_ws_def parse_literal_def)

lemma parse_value_true: "parse_value (''true'' @ rest) = Some (JBool True, rest)"
  by (subst parse_value.simps) (simp add: skip_ws_def is_ws_def parse_literal_def)

lemma parse_value_false: "parse_value (''false'' @ rest) = Some (JBool False, rest)"
  by (subst parse_value.simps) (simp add: skip_ws_def is_ws_def parse_literal_def)

lemma parse_value_number:
  assumes "follow_ok rest"
  shows "parse_value (number_to_string m e @ rest) = Some (JNum m e, rest)"
proof -
  obtain c cs where h: "number_to_string m e = c # cs" "is_digit c \<or> c = CHR ''-''"
    using number_to_string_head [of m e] by blast
  have c: "\<not> is_ws c" "c \<noteq> CHR ''[''" "c \<noteq> CHR ''{''" "c \<noteq> CHR 0x22"
    using h(2) by (auto simp: is_ws_def is_digit_def)
  have "parse_value ((c # cs) @ rest) = parse_literal ((c # cs) @ rest)"
    using c by (subst parse_value.simps) (simp add: skip_ws_Cons)
  with parse_literal_number [OF assms, of m e] show ?thesis by (simp add: h(1))
qed

lemma parse_value_string: "parse_value (quote s @ rest) = Some (JStr s, rest)"
  by (subst parse_value.simps) (simp add: quote_def skip_ws_def is_ws_def parse_chars_quoted)

lemma parse_elements_join:
  assumes "vs \<noteq> []"
    and "\<And>v r. v \<in> set vs \<Longrightarrow> follow_ok r \<Longrightarrow> parse_value (json_stringify v @ r) = Some (canon v, r)"
  shows "parse_elements (join '','' (map json_stringify vs) @ CHR '']'' # rest) = Some (map canon vs, rest)"
  using assms
proof (induction vs rule: list_nonempty_induct)
  case (single v)
  have pv: "parse_value (json_stringify v @ CHR '']'' # rest) = Some (canon v, CHR '']'' # rest)"
    by (rule single) (simp_all add: follow_ok_simps)
  show ?case
    by (subst parse_elements.simps) (simp add: pv skip_ws_def is_ws_def)
next
  case (cons v vs)
  let ?more = "join '','' (map json_stringify vs) @ CHR '']'' # rest"
  have pv: "parse_value (json_stringify v @ CHR '','' # ?more) = Some (canon v, CHR '','' # ?more)"
    by (rule cons.prems) (simp_all add: follow_ok_simps)
  have ih: "parse_elements ?more = Some (map canon vs, rest)"
    by (rule cons.IH) (simp add: cons.prems)
  have s: "join '','' (map json_stringify (v # vs)) @ CHR '']'' # rest
            = json_stringify v @ CHR '','' # ?more"
    using cons.hyps by (simp add: join_Cons_more)
  show ?case
    unfolding s
    by (subst parse_elements.simps) (simp add: pv ih skip_ws_def is_ws_def)
qed

lemma parse_members_join:
  assumes "ms \<noteq> []"
    and "\<And>kv r. kv \<in> set ms \<Longrightarrow> follow_ok r
            \<Longrightarrow> parse_value (json_stringify (snd kv) @ r) = Some (canon (snd kv), r)"
  shows "parse_members (join '','' (map (\<lambda>kv. quote (fst kv) @ '':'' @ json_stringify (snd kv)) ms)
                          @ CHR ''}'' # rest)
           = Some (map (\<lambda>kv. (fst kv, canon (snd kv))) ms, rest)"
  using assms
proof (induction ms rule: list_nonempty_induct)
  case (single kv)
  let ?after = "CHR ''}'' # rest"
  let ?body = "concat (map escape_char (fst kv)) @ CHR 0x22 # CHR '':'' # json_stringify (snd kv) @ ?after"
  have pv: "parse_value (json_stringify (snd kv) @ ?after) = Some (canon (snd kv), ?after)"
    by (rule single) (simp_all add: follow_ok_simps)
  have pc: "parse_chars ?body = Some (fst kv, CHR '':'' # json_stringify (snd kv) @ ?after)"
    by (rule parse_chars_quoted)
  have s: "join '','' (map (\<lambda>kv. quote (fst kv) @ '':'' @ json_stringify (snd kv)) [kv]) @ ?after
             = CHR 0x22 # ?body"
    by (simp add: quote_def)
  show ?case
    unfolding s
    by (subst parse_members.simps) (simp add: pc pv skip_ws_def is_ws_def)
next
  case (cons kv ms)
  let ?more = "join '','' (map (\<lambda>kv. quote (fst kv) @ '':'' @ json_stringify (snd kv)) ms) @ CHR ''}'' # rest"
  let ?after = "CHR '','' # ?more"
  let ?body = "concat (map escape_char (fst kv)) @ CHR 0x22 # CHR '':'' # json_stringify (snd kv) @ ?after"
  have pv: "parse_value (json_stringify (snd kv) @ ?after) = Some (canon (snd kv), ?after)"
    by (rule cons.prems) (simp_all add: follow_ok_simps)
  have pc: "parse_chars ?body = Some (fst kv, CHR '':'' # json_stringify (snd kv) @ ?after)"
    by (rule parse_chars_quoted)
  have ih: "parse_members ?more = Some (map (\<lambda>kv. (fst kv, canon (snd kv))) ms, rest)"
    by (rule cons.IH) (simp add: cons.prems)
  have s: "join '','' (map (\<lambda>kv. quote (fst kv) @ '':'' @ json_stringify (snd kv)) (kv # ms)) @ CHR ''}'' # rest
             = CHR 0x22 # ?body"
    using cons.hyps by (simp add: join_Cons_more quote_def)
  show ?case
    using pc pv ih unfolding s
    by (subst parse_members.simps) (simp add: skip_ws_def is_ws_def)
qed

lemma parse_value_stringify:
  "follow_ok rest \<Longrightarrow> parse_value (json_stringify v @ rest) = Some (canon v, rest)"
proof (induction v arbitrary: rest)
  case JNull
  show ?case using parse_value_null [of rest] by simp
next
  case (JBool b)
  show ?case using parse_value_true [of rest] parse_value_false [of rest] by (cases b) simp_all
next
  case (JNum m e)
  then show ?case by (simp add: parse_value_number)
next
  case (JStr s)
  show ?case by (simp add: parse_value_string)
next
  case (JArr vs)
  show ?case
  proof (cases vs)
    case Nil
    then show ?thesis
      by (subst parse_value.simps) (simp add: skip_ws_def is_ws_def)
  next
    case (Cons v vs')
    let ?inner = "join '','' (map json_stringify vs) @ CHR '']'' # rest"
    have pe: "parse_elements ?inner = Some (map canon vs, rest)"
      using Cons by (intro parse_elements_join JArr.IH) simp_all
    obtain c cs where h: "json_stringify v = c # cs" "\<not> is_ws c" "c \<noteq> CHR '']''"
      using stringify_head [of v] by blast
    obtain tl where inner: "?inner = c # tl"
      using Cons h(1) by (cases vs') simp_all
    have "parse_value (CHR ''['' # ?inner) = Some (JArr (map canon vs), rest)"
      using inner h(2,3) pe
      by (subst parse_value.simps) (simp add: skip_ws_def is_ws_def)
    then show ?thesis by simp
  qed
next
  case (JObj ms)
  show ?case
  proof (cases ms)
    case Nil
    then show ?thesis
      by (subst parse_value.simps) (simp add: skip_ws_def is_ws_def build_object_def)
  next
    case (Cons kv ms')
    let ?inner = "join '','' (map (\<lambda>kv. quote (fst kv) @ '':'' @ json_stringify (snd kv)) ms) @ CHR ''}'' # rest"
    have ih: "parse_value (json_stringify (snd kv) @ r) = Some (canon (snd kv), r)"
      if "kv \<in> set ms" "follow_ok r" for kv r
      using that by (intro JObj.IH [of kv "snd kv"]) (auto intro: snds.intros)
    have pm: "parse_members ?inner = Some (map (\<lambda>kv. (fst kv, canon (snd kv))) ms, rest)"
      using Cons by (intro parse_members_join ih) simp_all
    obtain tl where inner: "?inner = CHR 0x22 # tl"
      using Cons by (cases ms') (simp_all add: quote_def)
    have "parse_value (CHR ''{'' # ?inner) = Some (JObj (build_object (map (\<lambda>kv. (fst kv, canon (snd kv))) ms)), rest)"
      using inner pm
      by (subst parse_value.simps) (simp add: skip_ws_def is_ws_def)
    then show ?thesis by simp
  qed
qed

text \<open>\<open>JSON.parse(JSON.stringify(v))\<close> does not throw.\<close>

lemma parse_stringify: "json_parse (json_stringify v) = Some (canon v)"
  using parse_value_stringify [of "[]" v]
  by (simp add: json_parse_def follow_ok_simps skip_ws_def)

section \<open>Export\<close>

subsection \<open>The stored summary is read back as a summary\<close>

lemma summary_keys_not_index:
  "\<not> is_index_key ''summary''" "\<not> is_index_key ''actionItems''" "\<not> is_index_key ''keyPoints''"
  "\<not> is_index_key ''participants''" "\<not> is_index_key ''decisions''"
  by (simp_all add: is_index_key_def is_digit_def)

text \<open>The summary that \<open>JSON.parse\<close> gives back for a serialized summary.\<close>

definition read_back :: "MeetingSummary \<Rightarrow> MeetingSummary" where
  "read_back sm =
     \<lparr>summary = canon (summary sm), actionItems = map canon (actionItems sm),
      keyPoints = map canon (keyPoints sm),
      participants = map_option (map canon) (participants sm),
      decisions = map_option (map canon) (decisions sm)\<rparr>"

lemma canon_summary_object: "canon (summary_object sm) = summary_object (read_back sm)"
  by (cases "participants sm"; cases "decisions sm")
     (simp_all add: read_back_def summary_object_def build_object_def define_property_def
       summary_keys_not_index)

lemma as_MeetingSummary_object: "as_MeetingSummary (summary_object sm) = Some sm"
  by (cases "participants sm"; cases "decisions sm")
     (simp_all add: as_MeetingSummary_def summary_object_def optional_array_def)

text \<open>
  The payload \<open>translate\<close> stores is never empty, \<open>JSON.parse\<close> accepts it, and the value it
  gives has the shape the formatter reads.
\<close>

lemma stored_payload_read_back:
  "json_parse (text_or (Some (json_stringify (summary_object sm))) ''{}'') = Some (summary_object (read_back sm))"
  "as_MeetingSummary (summary_object (read_back sm)) = Some (read_back sm)"
  by (simp_all add: text_or_def parse_stringify canon_summary_object as_MeetingSummary_object
      del: json_stringify.simps canon.simps)

subsection \<open>Values that have a conversion to a string\<close>

definition printable :: "json \<Rightarrow> bool" where
  "printable v = (js_toString v \<noteq> None)"

text \<open>
  The summaries the formatter can write: the conversion to a string is defined for the
  summary and for every item of the lists. Every summary of the declared type
  (\<open>summary: string\<close>, the lists \<open>string[]\<close>) is one of them.
\<close>

definition printable_summary :: "MeetingSummary \<Rightarrow> bool" where
  "printable_summary sm =
     (printable (summary sm)
      \<and> list_all printable (actionItems sm)
      \<and> list_all printable (keyPoints sm)
      \<and> list_all printable (case participants sm of None \<Rightarrow> [] | Some ps \<Rightarrow> ps)
      \<and> list_all printable (case decisions sm of None \<Rightarrow> [] | Some ds \<Rightarrow> ds))"

definition is_string :: "json \<Rightarrow> bool" where
  "is_string v = (case v of JStr s \<Rightarrow> True | _ \<Rightarrow> False)"

definition declared_type :: "MeetingSummary \<Rightarrow> bool" where
  "declared_type sm =
     (is_string (summary sm)
      \<and> list_all is_string (actionItems sm)
      \<and> list_all is_string (keyPoints sm)
      \<and> list_all is_string (case participants sm of None \<Rightarrow> [] | Some ps \<Rightarrow> ps)
      \<and> list_all is_string (case decisions sm of None \<Rightarrow> [] | Some ds \<Rightarrow> ds))"

lemma string_printable: "is_string v \<Longrightarrow> printable v"
  by (cases v) (simp_all add: is_string_def printable_def)

lemma strings_printable: "list_all is_string vs \<Longrightarrow> list_all printable vs"
  by (induction vs) (simp_all add: string_printable)

lemma declared_type_printable: "declared_type sm \<Longrightarrow> printable_summary sm"
  by (simp add: declared_type_def printable_summary_def string_printable strings_printable)

lemma those_None_iff: "(those xs = None) = (None \<in> set xs)"
  by (induction xs) (auto split: option.splits)

lemma those_map_Some: "those (map Some xs) = Some xs"
  by (induction xs) simp_all

lemma those_append:
  "those (xs @ ys) = (case those xs of None \<Rightarrow> None | Some a \<Rightarrow> map_option ((@) a) (those ys))"
proof (induction xs)
  case Nil
  show ?case by (cases "those ys") simp_all
next
  case (Cons x xs)
  then show ?case by (cases x; cases "those xs"; cases "those ys") simp_all
qed

text \<open>An object keeps its keys when it is read back.\<close>

lemma insert_index_keys: "fst ` set (insert_index k v ms) = insert k (fst ` set ms)"
  by (induction k v ms rule: insert_index.induct) (simp_all add: insert_commute)

lemma define_property_keys: "fst ` set (define_property ms kv) = insert (fst kv) (fst ` set ms)"
proof -
  have "fst ` set (map (\<lambda>(k', v'). if k' = fst kv then (k', snd kv) else (k', v')) ms) = fst ` set ms"
    by (induction ms) auto
  then show ?thesis
    by (auto simp: define_property_def insert_index_keys)
qed

lemma foldl_define_property_keys:
  "fst ` set (foldl define_property acc kvs) = fst ` set acc \<union> fst ` set kvs"
  by (induction kvs arbitrary: acc) (auto simp: define_property_keys)

lemma build_object_keys: "fst ` set (build_object kvs) = fst ` set kvs"
  by (simp add: build_object_def foldl_define_property_keys)

lemma canon_null: "(canon v = JNull) = (v = JNull)"
  by (cases v) simp_all

lemma those_map_None: "(those (map f xs) = None) = (\<exists>x \<in> set xs. f x = None)"
  by (induction xs) (auto split: option.splits)

lemma those_map_None_cong:
  "(\<And>x. x \<in> set xs \<Longrightarrow> (f x = None) = (g x = None))
     \<Longrightarrow> (those (map f xs) = None) = (those (map g xs) = None)"
  by (simp add: those_map_None)

lemma printable_canon: "printable (canon v) = printable v"
proof (induction v)
  case (JArr vs)
  have e: "((if canon v = JNull then Some [] else js_toString (canon v)) = None)
         = ((if v = JNull then Some [] else js_toString v) = None)" if "v \<in> set vs" for v
    using JArr [OF that] unfolding printable_def
    by (cases "js_toString v"; cases "js_toString (canon v)") (simp_all add: canon_null)
  have "(those (map (\<lambda>v. if canon v = JNull then Some [] else js_toString (canon v)) vs) = None)
      = (those (map (\<lambda>v. if v = JNull then Some [] else js_toString v) vs) = None)"
    by (rule those_map_None_cong) (rule e)
  then show ?case by (simp add: printable_def comp_def)
next
  case (JObj ms)
  have "fst ` set (build_object (map (\<lambda>kv. (fst kv, canon (snd kv))) ms)) = fst ` set ms"
    by (simp add: build_object_keys image_image)
  then show ?case by (simp add: printable_def)
qed (simp_all add: printable_def)

lemma printables_canon: "list_all printable (map canon vs) = list_all printable vs"
  by (induction vs) (simp_all add: printable_canon)

lemma printable_read_back: "printable_summary (read_back sm) = printable_summary sm"
  by (cases "participants sm"; cases "decisions sm")
     (simp_all add: printable_summary_def read_back_def printable_canon printables_canon)

subsection \<open>The document\<close>

text \<open>The end of every exported document: the two fenced blocks, the original first.\<close>

definition original_then_translated :: "string \<Rightarrow> string \<Rightarrow> string" where
  "original_then_translated original translated =
     ''## Original Content'' @ [CHR 0x0A] @ ''```'' @ [CHR 0x0A] @ original @ [CHR 0x0A] @ ''```''
     @ [CHR 0x0A, CHR 0x0A]
     @ ''## Translated Content'' @ [CHR 0x0A] @ ''```'' @ [CHR 0x0A] @ translated @ [CHR 0x0A] @ ''```''"

lemma join_append: "xs \<noteq> [] \<Longrightarrow> ys \<noteq> [] \<Longrightarrow> join sep (xs @ ys) = join sep xs @ sep @ join sep ys"
proof (induction xs rule: list_nonempty_induct)
  case (single x)
  then show ?case by (cases ys) simp_all
next
  case (cons x xs)
  then show ?case by (cases xs) simp_all
qed

lemma join_Cons_head: "\<exists>more. join sep (x # xs) = x @ more"
  by (cases xs) simp_all

lemma those_framed:
  assumes "those (Some x # xs @ map Some ys) = Some ls"
  shows "\<exists>ms. ls = (x # ms) @ ys"
proof -
  from assms obtain rest where r: "those (xs @ map Some ys) = Some rest" and ls: "ls = x # rest"
    by (auto split: option.splits)
  from r obtain ms where "those xs = Some ms" and "rest = ms @ ys"
    by (auto simp: those_append those_map_Some split: option.splits)
  with ls show ?thesis by simp
qed

text \<open>
  Every document the formatter returns begins with the heading "# Meeting Summary" and
  ends with the two fenced blocks.
\<close>

lemma format_shape:
  assumes "formatSummaryForExport ev original translated sm src tgt = Some doc"
  shows "\<exists>body. doc = ''# Meeting Summary'' @ body @ original_then_translated original translated"
proof -
  define tail_lines where "tail_lines =
     [''## Original Content'', ''```'', original, ''```'', [], ''## Translated Content'', ''```'',
      translated, ''```'']"
  define head_lines where "head_lines =
     [Some [],
      Some (''**Languages:** '' @ toUpperCase ev src
            @ [CHR 0x20, CHR 0xC3, CHR 0xA2, CHR 0xE2, CHR 0x80, CHR 0xA0, CHR 0xE2, CHR 0x80, CHR 0x99, CHR 0x20]
            @ toUpperCase ev tgt),
      Some (''**Generated:** '' @ date_string ev), Some [], Some ''## Overview'', join_element (summary sm), Some []]
     @ (case participants sm of
          None \<Rightarrow> []
        | Some ps \<Rightarrow> if length ps > 0 then [Some ''## Participants''] @ bulleted ps @ [Some []] else [])
     @ (if length (actionItems sm) > 0
        then [Some ''## Action Items''] @ numbered 0 (actionItems sm) @ [Some []] else [])
     @ (if length (keyPoints sm) > 0
        then [Some ''## Key Points''] @ bulleted (keyPoints sm) @ [Some []] else [])
     @ (case decisions sm of
          None \<Rightarrow> []
        | Some ds \<Rightarrow> if length ds > 0 then [Some ''## Decisions Made''] @ bulleted ds @ [Some []] else [])"
  have f: "formatSummaryForExport ev original translated sm src tgt
             = map_option (join [CHR 0x0A])
                 (those (Some ''# Meeting Summary'' # head_lines @ map Some (''---'' # [] # tail_lines)))"
    by (simp add: formatSummaryForExport_def head_lines_def tail_lines_def del: those.simps)
  from assms obtain ls where
    ls: "those (Some ''# Meeting Summary'' # head_lines @ map Some (''---'' # [] # tail_lines)) = Some ls"
    and doc: "doc = join [CHR 0x0A] ls"
    unfolding f by blast
  from those_framed [OF ls] obtain ms where
    ms: "ls = (''# Meeting Summary'' # ms) @ (''---'' # [] # tail_lines)"
    by blast
  have c: "join [CHR 0x0A] tail_lines = original_then_translated original translated"
    by (simp add: tail_lines_def original_then_translated_def)
  obtain more where m: "join [CHR 0x0A] ((''# Meeting Summary'' # ms) @ [''---'', []]) = ''# Meeting Summary'' @ more"
    using join_Cons_head [of "[CHR 0x0A]" "''# Meeting Summary''" "ms @ [''---'', []]"] by auto
  have "ls = ((''# Meeting Summary'' # ms) @ [''---'', []]) @ tail_lines"
    by (simp add: ms)
  then have "join [CHR 0x0A] ls
          = join [CHR 0x0A] ((''# Meeting Summary'' # ms) @ [''---'', []]) @ [CHR 0x0A] @ join [CHR 0x0A] tail_lines"
    by (simp only:) (rule join_append, simp_all add: tail_lines_def)
  then have "doc = (''# Meeting Summary'' @ more) @ [CHR 0x0A] @ original_then_translated original translated"
    by (simp only: doc c m)
  then have "doc = ''# Meeting Summary'' @ (more @ [CHR 0x0A]) @ original_then_translated original translated"
    by simp
  then show ?thesis by blast
qed

text \<open>The formatter returns a document for the printable summaries, and for no other.\<close>

lemma numbered_None: "(None \<in> set (numbered idx items)) = (\<not> list_all printable items)"
  by (induction items arbitrary: idx) (auto simp: printable_def)

lemma bulleted_None: "(None \<in> set (bulleted items)) = (\<not> list_all printable items)"
  by (induction items) (auto simp: bulleted_def printable_def)

lemma join_element_None:
  "(join_element v = None) = (\<not> printable v)" "(None = join_element v) = (\<not> printable v)"
  by (cases v; simp add: join_element_def printable_def)+

lemma format_defined:
  "(formatSummaryForExport ev original translated sm src tgt \<noteq> None) = printable_summary sm"
proof -
  have n: "None \<notin> set (map Some xs)" for xs :: "string list"
    by auto
  show ?thesis
    unfolding formatSummaryForExport_def printable_summary_def
    by (cases "participants sm"; cases "decisions sm")
       (auto simp: those_None_iff numbered_None bulleted_None join_element_None
         simp del: those.simps)
qed

subsection \<open>What every stored translation carries\<close>

text \<open>
  Two facts hold in every state the program reaches: the meeting of every stored
  translation is stored (the foreign key), and the \<open>actionItems\<close> column of every stored
  translation is the serialization of a summary.
\<close>

definition store_ok :: "world \<Rightarrow> bool" where
  "store_ok w =
     (\<forall>t \<in> set (tbl_translations w).
        (\<exists>m \<in> set (tbl_meetings w). m_id m = meetingId t)
        \<and> (\<exists>sm. t_actionItems t = Some (json_stringify (summary_object sm))))"

lemma createMeeting_meetings:
  "createMeeting ev w ins = (r, w') \<Longrightarrow> set (tbl_meetings w) \<subseteq> set (tbl_meetings w')"
  by (auto simp: createMeeting_def split: option.splits if_splits)

lemma create_meetings_grow:
  "set (tbl_meetings w) \<subseteq> set (tbl_meetings (snd (meetings_create ev w uid ttl content)))"
  unfolding meetings_create_def
  by (auto simp: detectMeetingLanguage_def log_call_simps
      split: sum.splits prod.splits dest!: createMeeting_meetings)

lemma createFromImage_meetings_grow:
  "set (tbl_meetings w)
     \<subseteq> set (tbl_meetings (snd (meetings_createFromImage ev w uid ttl imageData mimeType fileSize)))"
  unfolding meetings_createFromImage_def Let_def
  by (auto simp: storagePut_def extractAndDetectLanguage_def log_call_simps
      split: sum.splits option.splits prod.splits dest!: createMeeting_meetings)

lemma store_ok_grow:
  assumes "store_ok w" and "set (tbl_meetings w) \<subseteq> set (tbl_meetings w')"
    and "tbl_translations w' = tbl_translations w"
  shows "store_ok w'"
  using assms unfolding store_ok_def by (metis subsetD)

lemma getMeetingById_Some_row:
  "getMeetingById ev w mid = Some mt \<Longrightarrow> mt \<in> set (tbl_meetings w) \<and> m_id mt = mid"
  by (auto simp: getMeetingById_def find_Some_iff split: if_splits)

lemma translate_store_ok:
  assumes "store_ok w"
  shows "store_ok (snd (meetings_translate ev w mid tgt))"
proof (cases "getTranslation ev w mid tgt")
  case (Some t)
  with assms show ?thesis by (simp add: translate_hit)
next
  case None
  note miss = this
  show ?thesis
  proof (cases "getMeetingById ev w mid")
    case None
    with assms miss show ?thesis by (simp add: translate_no_meeting)
  next
    case (Some mt)
    have mt: "mt \<in> set (tbl_meetings w)" "m_id mt = mid"
      using getMeetingById_Some_row [OF Some] by simp_all
    obtain r w' where eq: "meetings_translate ev w mid tgt = (r, w')"
      by (cases "meetings_translate ev w mid tgt")
    have m': "tbl_meetings w' = tbl_meetings w"
      using translate_meetings [of ev w mid tgt] eq by simp
    have "tbl_translations w' = tbl_translations w
        \<or> (\<exists>t. tbl_translations w' = tbl_translations w @ [t] \<and> meetingId t = mid
              \<and> (\<exists>sm. t_actionItems t = Some (json_stringify (summary_object sm))))"
      using eq
      by (auto simp: translate_miss [OF miss Some] Let_def log_call_simps
          split: sum.splits option.splits)
    then have "store_ok w'"
      using assms mt m' unfolding store_ok_def by fastforce
    with eq show ?thesis by simp
  qed
qed

lemma delete_store_ok:
  assumes "store_ok w"
  shows "store_ok (snd (meetings_delete ev w i))"
proof (cases "getDb ev")
  case False
  with assms show ?thesis by (simp add: meetings_delete_def deleteMeeting_def)
next
  case True
  then have w': "snd (meetings_delete ev w i)
      = w\<lparr>tbl_meetings := filter (\<lambda>m. m_id m \<noteq> i) (tbl_meetings w),
          tbl_translations := filter (\<lambda>t. meetingId t \<noteq> i) (tbl_translations w)\<rparr>"
    by (simp add: meetings_delete_def deleteMeeting_def)
  show ?thesis
    unfolding w' using assms by (fastforce simp: store_ok_def)
qed

lemma reachable_store_ok: "reachable ev w \<Longrightarrow> store_ok w"
proof (induction rule: reachable.induct)
  case reach_init
  show ?case by (simp add: store_ok_def init_world_def)
next
  case (reach_create w uid ttl content)
  from reach_create.IH create_meetings_grow create_translations show ?case
    by (rule store_ok_grow)
next
  case (reach_createFromImage w uid ttl imageData mimeType fileSize)
  from reach_createFromImage.IH createFromImage_meetings_grow createFromImage_translations show ?case
    by (rule store_ok_grow)
next
  case (reach_translate w mid tgt)
  from reach_translate.IH show ?case by (rule translate_store_ok)
next
  case (reach_delete w i)
  from reach_delete.IH show ?case by (rule delete_store_ok)
qed

lemma stored_translation_has_meeting:
  assumes "store_ok w" and "getTranslation ev w mid tgt = Some t"
  shows "\<exists>mt. getMeetingById ev w mid = Some mt"
proof -
  have t: "t \<in> set (tbl_translations w)" "meetingId t = mid"
    using getTranslation_Some_row [OF assms(2)] by simp_all
  have db: "getDb ev" using assms(2) by (simp add: getTranslation_def split: if_splits)
  from assms(1) t obtain m where "m \<in> set (tbl_meetings w)" "m_id m = mid"
    unfolding store_ok_def by blast
  then have "find (\<lambda>m. m_id m = mid) (tbl_meetings w) \<noteq> None"
    by (auto simp: find_None_iff)
  then show ?thesis
    using db by (auto simp: getMeetingById_def)
qed

lemma stored_translation_has_summary:
  assumes "store_ok w" and "getTranslation ev w mid tgt = Some t"
  shows "\<exists>sm. t_actionItems t = Some (json_stringify (summary_object sm))"
  using assms getTranslation_Some_row [OF assms(2)] unfolding store_ok_def by blast

subsection \<open>Export of a stored translation\<close>

text \<open>
  \<open>export\<close> on a stored translation: the summary is read back from the \<open>actionItems\<close>
  column and handed to the formatter; the call returns the document, or fails with the
  TypeError of a conversion to a string.
\<close>

lemma export_of_stored_row:
  assumes "getMeetingById ev w mid = Some mt" and "getTranslation ev w mid tgt = Some t"
    and "t_actionItems t = Some (json_stringify (summary_object sm))"
  shows "meetings_export ev w mid tgt
           = (case formatSummaryForExport ev (originalContent mt) (translatedContent t)
                     (read_back sm) (text_or (detectedLanguage mt) ''unknown'') tgt of
                None \<Rightarrow> (Inl TypeError, w)
              | Some doc \<Rightarrow> (Inr doc, w))"
  by (simp add: meetings_export_def assms stored_payload_read_back del: json_stringify.simps)

lemma export_printable:
  assumes "getMeetingById ev w mid = Some mt" and "getTranslation ev w mid tgt = Some t"
    and "t_actionItems t = Some (json_stringify (summary_object sm))"
    and "printable_summary sm"
  shows "\<exists>body. meetings_export ev w mid tgt
           = (Inr (''# Meeting Summary'' @ body
                   @ original_then_translated (originalContent mt) (translatedContent t)), w)"
proof -
  have "formatSummaryForExport ev (originalContent mt) (translatedContent t)
          (read_back sm) (text_or (detectedLanguage mt) ''unknown'') tgt \<noteq> None"
    using assms(4) by (simp only: format_defined printable_read_back)
  then obtain doc where doc:
    "formatSummaryForExport ev (originalContent mt) (translatedContent t)
          (read_back sm) (text_or (detectedLanguage mt) ''unknown'') tgt = Some doc"
    by blast
  from format_shape [OF doc] obtain body where
    "doc = ''# Meeting Summary'' @ body @ original_then_translated (originalContent mt) (translatedContent t)"
    by blast
  then show ?thesis
    using export_of_stored_row [OF assms(1-3)] doc by (simp del: json_stringify.simps)
qed

lemma export_unprintable:
  assumes "getMeetingById ev w mid = Some mt" and "getTranslation ev w mid tgt = Some t"
    and "t_actionItems t = Some (json_stringify (summary_object sm))"
    and "\<not> printable_summary sm"
  shows "meetings_export ev w mid tgt = (Inl TypeError, w)"
proof -
  have "formatSummaryForExport ev (originalContent mt) (translatedContent t)
          (read_back sm) (text_or (detectedLanguage mt) ''unknown'') tgt = None"
    using assms(4) format_defined [of ev "originalContent mt" "translatedContent t"
        "read_back sm" "text_or (detectedLanguage mt) ''unknown''" tgt]
    by (simp only: printable_read_back) simp
  then show ?thesis
    using export_of_stored_row [OF assms(1-3)] by (simp del: json_stringify.simps)
qed

text \<open>
  In a state the program reaches, \<open>export\<close> on a stored translation returns a document or
  fails with that TypeError: the meeting is there, the column is read back as a summary.
\<close>

lemma export_stored_translation:
  assumes "reachable ev w" and "getTranslation ev w mid tgt = Some t"
  shows "meetings_export ev w mid tgt = (Inl TypeError, w)
         \<or> (\<exists>mt body. getMeetingById ev w mid = Some mt
               \<and> meetings_export ev w mid tgt
                   = (Inr (''# Meeting Summary'' @ body
                           @ original_then_translated (originalContent mt) (translatedContent t)), w))"
proof -
  have ok: "store_ok w" using assms(1) by (rule reachable_store_ok)
  from stored_translation_has_meeting [OF ok assms(2)] obtain mt where
    mt: "getMeetingById ev w mid = Some mt" by blast
  from stored_translation_has_summary [OF ok assms(2)] obtain sm where
    sm: "t_actionItems t = Some (json_stringify (summary_object sm))" by blast
  show ?thesis
  proof (cases "printable_summary sm")
    case True
    from export_printable [OF mt assms(2) sm True] mt show ?thesis by blast
  next
    case False
    from export_unprintable [OF mt assms(2) sm False] show ?thesis by blast
  qed
qed

subsection \<open>Export requires the cached translation\<close>

lemma export_world: "snd (meetings_export ev w mid tgt) = w"
  by (simp add: meetings_export_def split: option.splits)

text \<open>
  What a successful \<open>translate\<close> returns in its \<open>actionItems\<close> field, in a state the
  program reaches, is the serialization of a summary.
\<close>

lemma translate_returns_serialized_summary:
  assumes "reachable ev w" and "meetings_translate ev w mid tgt = (Inr out1, w1)"
  shows "\<exists>sm. o_actionItems out1 = Some (json_stringify (summary_object sm))"
proof -
  have ok: "store_ok w" using assms(1) by (rule reachable_store_ok)
  from translate_step [OF assms(2)] show ?thesis
  proof (elim disjE exE conjE)
    fix t
    assume g: "getTranslation ev w mid tgt = Some t"
      and r: "Inr out1 = Inr \<lparr>o_id = t_id t, o_meetingId = meetingId t, o_targetLanguage = targetLanguage t,
                         o_translatedContent = translatedContent t,
                         o_summary = (case t_summary t of None \<Rightarrow> JNull | Some s \<Rightarrow> JStr s),
                         o_actionItems = t_actionItems t, o_createdAt = Some (t_createdAt t)\<rparr>"
    from stored_translation_has_summary [OF ok g] r show ?thesis
      by (auto simp del: json_stringify.simps)
  next
    fix e :: error
    assume "Inr out1 = Inl e"
    then show ?thesis by simp
  next
    fix stored content :: string and sm :: MeetingSummary and s :: string and created :: nat
    assume "Inr out1 = Inr \<lparr>o_id = next_translation_id w, o_meetingId = mid, o_targetLanguage = tgt,
                            o_translatedContent = content, o_summary = summary sm,
                            o_actionItems = Some (json_stringify (summary_object sm)),
                            o_createdAt = None\<rparr>"
    then have "o_actionItems out1 = Some (json_stringify (summary_object sm))"
      by (auto simp del: json_stringify.simps)
    then show ?thesis by blast
  qed
qed










section \<open>The serialized summary\<close>

text \<open>
  A summarization provider that answers with an action item that is an object with a
  property named \<open>toString\<close>, and the state \<open>translate\<close> leaves on that answer.
\<close>

definition unprintable_env :: env where
  "unprintable_env =
     sample_env\<lparr>gen_summarize :=
       (\<lambda>cs content. Inr ''{\"summary\": \"Weekly sync\", \"actionItems\": [{\"toString\": 1}]}'')\<rparr>"

definition unprintable_payload :: string where
  "unprintable_payload = ''{\"summary\":\"Weekly sync\",\"actionItems\":[{\"toString\":1}],\"keyPoints\":[]}''"

definition unprintable_row :: translation where
  "unprintable_row =
     \<lparr>t_id = 1, meetingId = 1, targetLanguage = ''fr'', translatedContent = ''in fr: Hello team'',
      t_summary = Some ''Weekly sync'', t_actionItems = Some unprintable_payload, t_createdAt = 3\<rparr>"

definition unprintable_world :: world where
  "unprintable_world =
     \<lparr>tbl_meetings = [sample_meeting_created], tbl_translations = [unprintable_row], next_meeting_id = 2,
      next_translation_id = 2,
      calls = [DetectLanguage ''Hello team'', Translate ''Hello team'' ''fr'' (Some ''en''),
               Summarize ''in fr: Hello team'']\<rparr>"

lemma unprintable_summary_parsed:
  "summary_of_response ''{\"summary\": \"Weekly sync\", \"actionItems\": [{\"toString\": 1}]}''
     = \<lparr>summary = JStr ''Weekly sync'', actionItems = [JObj [(''toString'', JNum 1 0)]], keyPoints = [],
        participants = None, decisions = None\<rparr>"
  by code_simp

lemma unprintable_summary_stringified:
  "json_stringify (summary_object \<lparr>summary = JStr ''Weekly sync'',
      actionItems = [JObj [(''toString'', JNum 1 0)]], keyPoints = [],
      participants = None, decisions = None\<rparr>) = unprintable_payload"
  by code_simp

lemma unprintable_payload_parsed:
  "json_parse unprintable_payload
     = Some (JObj [(''summary'', JStr ''Weekly sync''),
                   (''actionItems'', JArr [JObj [(''toString'', JNum 1 0)]]),
                   (''keyPoints'', JArr [])])"
  by code_simp

lemma unprintable_translate:
  "meetings_translate unprintable_env sample_world_created 1 ''fr''
     = (Inr \<lparr>o_id = 1, o_meetingId = 1, o_targetLanguage = ''fr'',
             o_translatedContent = ''in fr: Hello team'', o_summary = JStr ''Weekly sync'',
             o_actionItems = Some unprintable_payload, o_createdAt = None\<rparr>,
        unprintable_world)"
proof -
  have g: "getTranslation unprintable_env sample_world_created 1 ''fr'' = None"
    by (simp add: getTranslation_def sample_world_created_def)
  have m: "getMeetingById unprintable_env sample_world_created 1 = Some sample_meeting_created"
    by (simp add: getMeetingById_def getDb_def unprintable_env_def sample_env_def sample_world_created_def
        sample_meeting_created_def)
  have t: "gen_translate unprintable_env cs c tgt src = Inr (''in '' @ tgt @ '': '' @ c)" for cs c tgt src
    by (simp add: unprintable_env_def sample_env_def)
  have s: "gen_summarize unprintable_env cs c
             = Inr ''{\"summary\": \"Weekly sync\", \"actionItems\": [{\"toString\": 1}]}''" for cs c
    by (simp add: unprintable_env_def sample_env_def)
  have d: "db_now unprintable_env cs = length cs" for cs
    by (simp add: unprintable_env_def sample_env_def)
  show ?thesis
    by (subst translate_miss_fits [OF g m short_codes(1)])
       (simp add: t s d unprintable_summary_parsed unprintable_summary_stringified
        column_text_def Let_def log_call_def source_hint_def sample_meeting_created_def
        sample_world_created_def unprintable_world_def unprintable_row_def
        del: json_stringify.simps)
qed

lemma unprintable_export:
  "meetings_export unprintable_env unprintable_world 1 ''fr'' = (Inl TypeError, unprintable_world)"
proof -
  have m: "getMeetingById unprintable_env unprintable_world 1 = Some sample_meeting_created"
    by (simp add: getMeetingById_def getDb_def unprintable_env_def sample_env_def unprintable_world_def
        sample_meeting_created_def)
  have t: "getTranslation unprintable_env unprintable_world 1 ''fr'' = Some unprintable_row"
    by (simp add: getTranslation_def getDb_def unprintable_env_def sample_env_def unprintable_world_def
        unprintable_row_def)
  have p: "text_or (t_actionItems unprintable_row) ''{}'' = unprintable_payload"
    by (simp add: text_or_def unprintable_row_def unprintable_payload_def)
  have s: "as_MeetingSummary (JObj [(''summary'', JStr ''Weekly sync''),
              (''actionItems'', JArr [JObj [(''toString'', JNum 1 0)]]), (''keyPoints'', JArr [])])
       = Some \<lparr>summary = JStr ''Weekly sync'', actionItems = [JObj [(''toString'', JNum 1 0)]],
               keyPoints = [], participants = None, decisions = None\<rparr>"
    by (simp add: as_MeetingSummary_def optional_array_def)
  have f: "formatSummaryForExport ev original translated
             \<lparr>summary = JStr ''Weekly sync'', actionItems = [JObj [(''toString'', JNum 1 0)]],
               keyPoints = [], participants = None, decisions = None\<rparr> src tgt = None"
    for ev original translated src tgt
    by (simp add: formatSummaryForExport_def join_element_def)
  show ?thesis
    by (simp add: meetings_export_def m t p unprintable_payload_parsed s f)
qed

text \<open>
  C10, where the code departs from the claim. \<open>summarizeMeetingNotes\<close> tests \<open>actionItems\<close>
  and \<open>keyPoints\<close> with \<open>Array.isArray\<close> and \<open>summary\<close> for truthiness only, and it does not
  look at the items of the lists, although \<open>MeetingSummary\<close> declares \<open>summary: string\<close>
  and \<open>actionItems: string[]\<close>. On the answer \<open>{"summary": 42}\<close> the text \<open>translate\<close> stores
  in the \<open>actionItems\<close> column is the serialization of an object whose \<open>summary\<close> is a
  number, and that is what \<open>export\<close> parses back. On an answer whose action item is an
  object with a property named \<open>toString\<close>, \<open>translate\<close> succeeds and stores the row, and
  \<open>export\<close> of that row fails with a TypeError in the formatter: the two lists are lists,
  the item has no conversion to a string.
\<close>

theorem stored_summary_not_as_declared:
  "summary (summary_of_response ''{\"summary\": 42}'') = JNum 42 0
   \<and> json_stringify (summary_object (summary_of_response ''{\"summary\": 42}'')) = numeric_payload
   \<and> map_option (\<lambda>v. get_member v ''summary'') (json_parse numeric_payload) = Some (Some (JNum 42 0))
   \<and> \<not> is_string (JNum 42 0)
   \<and> meetings_translate unprintable_env sample_world_created 1 ''fr''
       = (Inr \<lparr>o_id = 1, o_meetingId = 1, o_targetLanguage = ''fr'',
               o_translatedContent = ''in fr: Hello team'', o_summary = JStr ''Weekly sync'',
               o_actionItems = Some unprintable_payload, o_createdAt = None\<rparr>,
          unprintable_world)
   \<and> meetings_export unprintable_env unprintable_world 1 ''fr'' = (Inl TypeError, unprintable_world)"
proof -
  have p: "map_option (\<lambda>v. get_member v ''summary'') (json_parse numeric_payload) = Some (Some (JNum 42 0))"
    by code_simp
  show ?thesis
    by (simp add: numeric_summary_parsed numeric_summary_stringified p is_string_def
        unprintable_translate unprintable_export del: json_stringify.simps)
qed

end
